theory Spec2Isabelle
  imports Main
begin

section \<open>The shared PostgreSQL schema\<close>

text \<open>
  The three services share one database (\<^verbatim>\<open>db/init/*.sql\<close>). A table is the list of its
  rows in insertion order; a row is a record with one field per column. Column names that
  several tables share (\<^verbatim>\<open>id\<close>, \<^verbatim>\<open>sku\<close>, \<^verbatim>\<open>status\<close>, \<^verbatim>\<open>created_at\<close>, ...) carry
  the table as a prefix. \<^verbatim>\<open>INTEGER\<close> columns and the JavaScript numbers bound to them
  are integers (\<^typ>\<open>int\<close>); timestamps are milliseconds since the epoch; a \<^verbatim>\<open>UUID\<close> is its
  128-bit value (text that is not a UUID is not a value of the type).
\<close>

datatype uuid = UUID nat

type_synonym timestamp = int

datatype reservation_status = RESERVED | CONFIRMED | RELEASED | EXPIRED

datatype payment_status = PENDING | COMPLETED | FAILED | REFUNDED

record order_row =
  order_pk :: uuid
  user_id :: string
  order_status :: string

record inventory_item =
  item_id :: uuid
  sku :: string
  name :: string
  description :: "string option"
  available_quantity :: int
  reserved_quantity :: int
  price_cents :: int
  item_created_at :: timestamp
  item_updated_at :: timestamp

record inventory_reservation =
  reservation_id :: uuid
  order_id :: uuid
  reservation_sku :: string
  quantity :: int
  status :: reservation_status
  expires_at :: timestamp
  created_at :: timestamp
  updated_at :: timestamp

record payment_transaction =
  payment_id :: uuid
  payment_order_id :: uuid
  amount_cents :: int
  currency :: string
  payment_status :: payment_status
  payment_method :: "string option"
  external_transaction_id :: "string option"
  payment_created_at :: timestamp
  payment_updated_at :: timestamp

record database =
  orders :: "order_row list"
  inventory :: "inventory_item list"
  inventory_reservations :: "inventory_reservation list"
  payments :: "payment_transaction list"

text \<open>
  Every \<^verbatim>\<open>throw\<close> of the data-access modules, and every statement the database rejects,
  is a value of \<open>error\<close>. \<open>Item_not_found\<close> is \<^verbatim>\<open>Item with SKU ... not found\<close>
  (the spec's UnknownSku), \<open>Insufficient_stock\<close> carries the SKU, the available and the
  requested quantity of its message, \<open>Payment_not_found\<close> and
  \<open>Can_only_refund_completed_payments\<close> are the two messages of \<^verbatim>\<open>refundPayment\<close> (the
  spec's PaymentNotFound and InvalidState), and \<open>Constraint_violation\<close> is an error raised
  by PostgreSQL for a value that does not fit its column or that violates a \<^verbatim>\<open>CHECK\<close>,
  \<^verbatim>\<open>PRIMARY KEY\<close> or \<^verbatim>\<open>REFERENCES\<close> constraint.
\<close>

datatype error =
    Item_not_found string
  | Insufficient_stock string int int
  | Constraint_violation
  | Order_not_found
  | Payment_not_found
  | Can_only_refund_completed_payments

subsection \<open>Constraints of the inventory tables\<close>

text \<open>
  The values of an \<^verbatim>\<open>INTEGER\<close> column are the 32-bit signed integers. PostgreSQL does not
  wrap around: a statement that computes or stores a value outside the range fails
  (\<^verbatim>\<open>integer out of range\<close>).
\<close>

definition int4 :: "int \<Rightarrow> bool" where
  "int4 v = (- 2147483648 \<le> v \<and> v \<le> 2147483647)"

text \<open>
  The timestamps that reach a \<^verbatim>\<open>TIMESTAMP WITH TIME ZONE\<close> column from a JavaScript
  \<^verbatim>\<open>Date\<close>. A \<^verbatim>\<open>Date\<close> holds at most 8.64e15 milliseconds on either side of the epoch;
  \<^verbatim>\<open>new Date(ms)\<close> beyond that is an Invalid Date, which the driver sends as text that
  PostgreSQL refuses. The column itself starts at 4713 BC (Julian day 0, which is
  -210866803200000 ms), and ends after the last \<^verbatim>\<open>Date\<close>. The Node process is taken to
  run in UTC.
\<close>

definition timestamptz_ok :: "timestamp \<Rightarrow> bool" where
  "timestamptz_ok t = (- 210866803200000 \<le> t \<and> t \<le> 8640000000000000)"

text \<open>
  Assignment of text to a \<^verbatim>\<open>VARCHAR(n)\<close> column (texts are ASCII here): text whose excess
  over \<open>n\<close> characters is all spaces is truncated to \<open>n\<close> characters; other over-length
  text stays as it is, and the statement that stores it fails.
\<close>

definition varchar :: "nat \<Rightarrow> string \<Rightarrow> string" where
  "varchar n s = (if list_all (\<lambda>c. c = CHR '' '') (drop n s) then take n s else s)"

text \<open>
  What a row of \<^verbatim>\<open>inventory\<close> must satisfy to be stored: the type of its three
  \<^verbatim>\<open>INTEGER\<close> columns, \<^verbatim>\<open>CHECK (available_quantity >= 0)\<close>,
  \<^verbatim>\<open>CHECK (reserved_quantity >= 0)\<close> and \<^verbatim>\<open>CHECK (price_cents >= 0)\<close>.
\<close>

definition inventory_check :: "inventory_item \<Rightarrow> bool" where
  "inventory_check r =
     (int4 (available_quantity r) \<and> int4 (reserved_quantity r) \<and> int4 (price_cents r)
      \<and> 0 \<le> available_quantity r \<and> 0 \<le> reserved_quantity r \<and> 0 \<le> price_cents r)"

text \<open>
  \<^verbatim>\<open>UPDATE inventory SET ... WHERE sku = $2\<close>: every row with the SKU is rewritten by \<open>f\<close>;
  the statement fails when a rewritten row cannot be stored.
\<close>

definition update_inventory ::
  "string \<Rightarrow> (inventory_item \<Rightarrow> inventory_item) \<Rightarrow> inventory_item list
     \<Rightarrow> error + inventory_item list" where
  "update_inventory k f rows =
     (if list_all inventory_check (map f (filter (\<lambda>r. sku r = k) rows))
      then Inr (map (\<lambda>r. if sku r = k then f r else r) rows)
      else Inl Constraint_violation)"

text \<open>
  \<^verbatim>\<open>INSERT INTO inventory_reservations\<close>: the row is appended unless it violates
  \<^verbatim>\<open>CHECK (quantity > 0)\<close>, the type of \<^verbatim>\<open>quantity\<close> or of \<^verbatim>\<open>expires_at\<close>, the
  primary key, \<^verbatim>\<open>order_id REFERENCES orders(id)\<close> or \<^verbatim>\<open>sku REFERENCES inventory(sku)\<close>.
\<close>

definition reservation_insert_ok :: "database \<Rightarrow> inventory_reservation \<Rightarrow> bool" where
  "reservation_insert_ok db row =
     (0 < quantity row \<and> int4 (quantity row)
      \<and> timestamptz_ok (expires_at row)
      \<and> reservation_id row \<notin> set (map reservation_id (inventory_reservations db))
      \<and> order_id row \<in> set (map order_pk (orders db))
      \<and> reservation_sku row \<in> set (map sku (inventory db)))"

definition insert_reservation ::
  "inventory_reservation \<Rightarrow> database \<Rightarrow> error + database" where
  "insert_reservation row db =
     (if reservation_insert_ok db row
      then Inr (db\<lparr>inventory_reservations := inventory_reservations db @ [row]\<rparr>)
      else Inl Constraint_violation)"

section \<open>Inventory service (\<^verbatim>\<open>services/inventory/src/db.ts\<close>)\<close>

text \<open>
  What a call reads from outside the database: \<^verbatim>\<open>Date.now()\<close> of the Node process,
  \<^verbatim>\<open>CURRENT_TIMESTAMP\<close> of the transaction (one value for the whole transaction) and
  the values \<^verbatim>\<open>gen_random_uuid()\<close> gives to the rows the call inserts, in order.
\<close>

record world =
  date_now :: timestamp
  current_timestamp :: timestamp
  gen_random_uuid :: "nat \<Rightarrow> uuid"

record availability_check =
  check_sku :: string
  requested_quantity :: int
  check_available_quantity :: int
  is_available :: bool
  check_price_cents :: "int option"

record reserve_item =
  item_sku :: string
  item_quantity :: int

record reserve_inventory_request =
  request_order_id :: uuid
  items :: "reserve_item list"
  expiration_minutes :: "int option"

subsection \<open>checkAvailability\<close>

text \<open>One \<^verbatim>\<open>SELECT\<close>; the database is returned as the call leaves it.\<close>

definition checkAvailability ::
  "string \<Rightarrow> int \<Rightarrow> database \<Rightarrow> availability_check \<times> database" where
  "checkAvailability k requestedQuantity db =
     (case filter (\<lambda>r. sku r = k) (inventory db) of
        [] \<Rightarrow>
          (\<lparr>check_sku = k, requested_quantity = requestedQuantity,
            check_available_quantity = 0, is_available = False,
            check_price_cents = None\<rparr>, db)
      | item # _ \<Rightarrow>
          (\<lparr>check_sku = k, requested_quantity = requestedQuantity,
            check_available_quantity = available_quantity item,
            is_available = (requestedQuantity \<le> available_quantity item),
            check_price_cents = Some (price_cents item)\<rparr>, db))"

subsection \<open>reserveInventory\<close>

text \<open>
  \<^verbatim>\<open>request.expiration_minutes || 30\<close>: an absent value and \<open>0\<close> are falsy.
\<close>

definition expirationMinutes :: "reserve_inventory_request \<Rightarrow> int" where
  "expirationMinutes request =
     (case expiration_minutes request of
        None \<Rightarrow> 30
      | Some m \<Rightarrow> if m = 0 then 30 else m)"

text \<open>
  The time value of \<^verbatim>\<open>new Date(Date.now() + expirationMinutes * 60 * 1000)\<close>. The
  \<^verbatim>\<open>Date\<close> is built before the transaction and is not looked at until the \<^verbatim>\<open>INSERT\<close>
  binds it: a value that is no valid \<^verbatim>\<open>Date\<close>, or that the column cannot hold, makes the
  \<^verbatim>\<open>INSERT\<close> of the first item fail. \<^verbatim>\<open>Date.now()\<close> is a time value and the minutes are
  an integer, so the sum is computed exactly whenever it is a time value.
\<close>

definition expiresAt :: "world \<Rightarrow> reserve_inventory_request \<Rightarrow> timestamp" where
  "expiresAt w request = date_now w + expirationMinutes request * 60 * 1000"

text \<open>The row \<^verbatim>\<open>INSERT ... RETURNING *\<close> builds, with the defaults of the table.\<close>

definition new_reservation ::
  "world \<Rightarrow> reserve_inventory_request \<Rightarrow> nat \<Rightarrow> reserve_item \<Rightarrow> inventory_reservation" where
  "new_reservation w request n item =
     \<lparr>reservation_id = gen_random_uuid w n,
      order_id = request_order_id request,
      reservation_sku = item_sku item,
      quantity = item_quantity item,
      status = RESERVED,
      expires_at = expiresAt w request,
      created_at = current_timestamp w,
      updated_at = current_timestamp w\<rparr>"

text \<open>The \<^verbatim>\<open>SET\<close> clause of the debit, with the \<^verbatim>\<open>updated_at\<close> the statement and the trigger write.\<close>

definition debit :: "timestamp \<Rightarrow> int \<Rightarrow> inventory_item \<Rightarrow> inventory_item" where
  "debit now q r =
     r\<lparr>available_quantity := available_quantity r - q,
       reserved_quantity := reserved_quantity r + q,
       item_updated_at := now\<rparr>"

text \<open>
  The body of the \<^verbatim>\<open>for\<close> loop over \<^verbatim>\<open>request.items\<close>, inside the transaction: the
  database so far and the rows pushed to \<^verbatim>\<open>reservations\<close>. \<open>Inl\<close> is the exception that
  leaves the loop.
\<close>

fun reserve_loop ::
  "world \<Rightarrow> reserve_inventory_request \<Rightarrow> reserve_item list
     \<Rightarrow> database \<Rightarrow> inventory_reservation list
     \<Rightarrow> error + (database \<times> inventory_reservation list)" where
  "reserve_loop w request [] db reservations = Inr (db, reservations)"
| "reserve_loop w request (item # rest) db reservations =
     (case filter (\<lambda>r. sku r = item_sku item) (inventory db) of
        [] \<Rightarrow> Inl (Item_not_found (item_sku item))
      | currentItem # _ \<Rightarrow>
          if available_quantity currentItem < item_quantity item
          then Inl (Insufficient_stock (item_sku item) (available_quantity currentItem)
                      (item_quantity item))
          else
            (case update_inventory (item_sku item)
                    (debit (current_timestamp w) (item_quantity item)) (inventory db) of
               Inl e \<Rightarrow> Inl e
             | Inr rows \<Rightarrow>
                 (case insert_reservation
                         (new_reservation w request (length reservations) item)
                         (db\<lparr>inventory := rows\<rparr>) of
                    Inl e \<Rightarrow> Inl e
                  | Inr db' \<Rightarrow>
                      reserve_loop w request rest db'
                        (reservations @ [new_reservation w request (length reservations) item]))))"

text \<open>
  \<^verbatim>\<open>BEGIN\<close> ... \<^verbatim>\<open>COMMIT\<close>, or \<^verbatim>\<open>ROLLBACK\<close> and rethrow: on an exception the database is
  the one the transaction started from.
\<close>

definition reserveInventory ::
  "world \<Rightarrow> reserve_inventory_request \<Rightarrow> database
     \<Rightarrow> (error + inventory_reservation list) \<times> database" where
  "reserveInventory w request db =
     (case reserve_loop w request (items request) db [] of
        Inl e \<Rightarrow> (Inl e, db)
      | Inr (db', reservations) \<Rightarrow> (Inr reservations, db'))"

subsection \<open>confirmReservation\<close>

text \<open>
  \<^verbatim>\<open>UPDATE inventory_reservations SET status = $1, updated_at = CURRENT_TIMESTAMP
  WHERE order_id = $2 AND status = $3\<close>. No constraint of the table mentions \<^verbatim>\<open>status\<close>
  or \<^verbatim>\<open>updated_at\<close>, so the statement cannot fail.
\<close>

definition confirmReservation ::
  "world \<Rightarrow> uuid \<Rightarrow> database \<Rightarrow> (error + unit) \<times> database" where
  "confirmReservation w orderId db =
     (Inr (),
      db\<lparr>inventory_reservations :=
           map (\<lambda>r. if order_id r = orderId \<and> status r = RESERVED
                     then r\<lparr>status := CONFIRMED, updated_at := current_timestamp w\<rparr>
                     else r)
               (inventory_reservations db)\<rparr>)"

subsection \<open>releaseReservation\<close>

text \<open>The \<^verbatim>\<open>SET\<close> clause of the credit.\<close>

definition credit :: "timestamp \<Rightarrow> int \<Rightarrow> inventory_item \<Rightarrow> inventory_item" where
  "credit now q r =
     r\<lparr>available_quantity := available_quantity r + q,
       reserved_quantity := reserved_quantity r - q,
       item_updated_at := now\<rparr>"

text \<open>\<^verbatim>\<open>WHERE order_id = $1 AND status IN ('RESERVED', 'CONFIRMED')\<close>.\<close>

definition releasable :: "uuid \<Rightarrow> inventory_reservation \<Rightarrow> bool" where
  "releasable orderId r =
     (order_id r = orderId \<and> (status r = RESERVED \<or> status r = CONFIRMED))"

text \<open>The \<^verbatim>\<open>for\<close> loop over the selected reservations: one credit each.\<close>

fun release_loop ::
  "world \<Rightarrow> inventory_reservation list \<Rightarrow> inventory_item list
     \<Rightarrow> error + inventory_item list" where
  "release_loop w [] rows = Inr rows"
| "release_loop w (reservation # rest) rows =
     (case update_inventory (reservation_sku reservation)
             (credit (current_timestamp w) (quantity reservation)) rows of
        Inl e \<Rightarrow> Inl e
      | Inr rows' \<Rightarrow> release_loop w rest rows')"

text \<open>
  The transaction: the \<^verbatim>\<open>SELECT\<close> of the order's reservations that are RESERVED or
  CONFIRMED, the loop, and the \<^verbatim>\<open>UPDATE\<close> that marks the same rows RELEASED; on an
  exception, \<^verbatim>\<open>ROLLBACK\<close>.
\<close>

definition releaseReservation ::
  "world \<Rightarrow> uuid \<Rightarrow> database \<Rightarrow> (error + unit) \<times> database" where
  "releaseReservation w orderId db =
     (case release_loop w (filter (releasable orderId) (inventory_reservations db))
             (inventory db) of
        Inl e \<Rightarrow> (Inl e, db)
      | Inr rows \<Rightarrow>
          (Inr (),
           db\<lparr>inventory := rows,
              inventory_reservations :=
                map (\<lambda>r. if releasable orderId r
                          then r\<lparr>status := RELEASED, updated_at := current_timestamp w\<rparr>
                          else r)
                    (inventory_reservations db)\<rparr>))"

subsection \<open>Sequences of calls\<close>

text \<open>
  A request to the inventory service that can change the database, with what the call
  reads from outside, and the database a sequence of requests (one after the other)
  leaves behind.
\<close>

datatype inventory_call =
    Reserve world reserve_inventory_request
  | Confirm world uuid
  | Release world uuid

fun run_call :: "inventory_call \<Rightarrow> database \<Rightarrow> database" where
  "run_call (Reserve w request) db = snd (reserveInventory w request db)"
| "run_call (Confirm w orderId) db = snd (confirmReservation w orderId db)"
| "run_call (Release w orderId) db = snd (releaseReservation w orderId db)"

fun run_calls :: "inventory_call list \<Rightarrow> database \<Rightarrow> database" where
  "run_calls [] db = db"
| "run_calls (c # cs) db = run_calls cs (run_call c db)"

section \<open>Payment service (\<^verbatim>\<open>services/payment/src/db.ts\<close>)\<close>

text \<open>
  What a call reads from outside the database: the \<^verbatim>\<open>uuidv4()\<close> of the new row, the
  text \<^verbatim>\<open>${Date.now()}_${Math.random().toString(36).substr(2, 9)}\<close> that follows the
  prefix of the external transaction id, the outcome of the simulated gateway
  (\<^verbatim>\<open>simulatePaymentProcessing\<close>, \<^verbatim>\<open>simulateRefundProcessing\<close>: a random draw), and
  \<^verbatim>\<open>NOW()\<close>.
\<close>

record payment_world =
  uuidv4 :: uuid
  transaction_suffix :: string
  gateway_outcome :: bool
  now :: timestamp

record process_payment_request =
  process_order_id :: uuid
  process_amount_cents :: int
  process_currency :: string
  process_payment_method :: string

record refund_payment_request =
  refund_payment_id :: uuid
  refund_amount_cents :: "int option"

record payment_summary =
  total_paid :: int
  total_refunded :: int
  net_amount :: int
  payment_count :: nat
  latest_status :: "payment_status option"

text \<open>
  \<^verbatim>\<open>INSERT INTO payments\<close> of a row whose texts have been assigned to their columns
  (\<open>varchar\<close>): rejected for a primary key already in the table, an \<^verbatim>\<open>order_id\<close> that is
  not in \<^verbatim>\<open>orders\<close>, an amount outside \<^verbatim>\<open>INTEGER\<close>, or a text that is still longer than
  its \<^verbatim>\<open>VARCHAR\<close> column.
\<close>

definition payment_insert_ok :: "database \<Rightarrow> payment_transaction \<Rightarrow> bool" where
  "payment_insert_ok db row =
     (payment_id row \<notin> set (map payment_id (payments db))
      \<and> payment_order_id row \<in> set (map order_pk (orders db))
      \<and> int4 (amount_cents row)
      \<and> length (currency row) \<le> 3
      \<and> (case payment_method row of None \<Rightarrow> True | Some m \<Rightarrow> length m \<le> 50)
      \<and> (case external_transaction_id row of None \<Rightarrow> True | Some t \<Rightarrow> length t \<le> 255))"

definition insert_payment :: "payment_transaction \<Rightarrow> database \<Rightarrow> error + database" where
  "insert_payment row db =
     (if payment_insert_ok db row
      then Inr (db\<lparr>payments := payments db @ [row]\<rparr>)
      else Inl Constraint_violation)"

subsection \<open>getPaymentById\<close>

text \<open>\<^verbatim>\<open>result.rows[0] || null\<close> of \<^verbatim>\<open>SELECT * FROM payments WHERE id = $1\<close>.\<close>

definition getPaymentById :: "uuid \<Rightarrow> database \<Rightarrow> payment_transaction option" where
  "getPaymentById paymentId db =
     (case filter (\<lambda>p. payment_id p = paymentId) (payments db) of
        [] \<Rightarrow> None
      | p # _ \<Rightarrow> Some p)"

subsection \<open>processPayment\<close>

text \<open>The row is written as the table stores it and \<^verbatim>\<open>RETURNING *\<close> gives it back.\<close>

definition processPayment ::
  "payment_world \<Rightarrow> process_payment_request \<Rightarrow> database
     \<Rightarrow> (error + payment_transaction) \<times> database" where
  "processPayment w request db =
     (if filter (\<lambda>x. order_pk x = process_order_id request) (orders db) = []
      then (Inl Order_not_found, db)
      else
        (let row =
           \<lparr>payment_id = uuidv4 w,
            payment_order_id = process_order_id request,
            amount_cents = process_amount_cents request,
            currency = varchar 3 (process_currency request),
            payment_status = (if gateway_outcome w then COMPLETED else FAILED),
            payment_method = Some (varchar 50 (process_payment_method request)),
            external_transaction_id = Some (varchar 255 (''txn_'' @ transaction_suffix w)),
            payment_created_at = now w,
            payment_updated_at = now w\<rparr>
         in case insert_payment row db of
              Inl e \<Rightarrow> (Inl e, db)
            | Inr db' \<Rightarrow> (Inr row, db')))"

subsection \<open>refundPayment\<close>

text \<open>
  \<^verbatim>\<open>request.amount_cents || originalPayment.amount_cents\<close>: an absent amount and the
  amount \<open>0\<close> are falsy, and give the amount of the original payment.
\<close>

definition refundAmount :: "refund_payment_request \<Rightarrow> payment_transaction \<Rightarrow> int" where
  "refundAmount request originalPayment =
     (case refund_amount_cents request of
        None \<Rightarrow> amount_cents originalPayment
      | Some a \<Rightarrow> if a = 0 then amount_cents originalPayment else a)"

text \<open>
  The \<^verbatim>\<open>values\<close> of the refund's \<^verbatim>\<open>INSERT\<close>, as the table stores them and
  \<^verbatim>\<open>RETURNING *\<close> gives them back.
\<close>

definition refund_row ::
  "payment_world \<Rightarrow> refund_payment_request \<Rightarrow> payment_transaction \<Rightarrow> payment_transaction" where
  "refund_row w request originalPayment =
     \<lparr>payment_id = uuidv4 w,
      payment_order_id = payment_order_id originalPayment,
      amount_cents = - refundAmount request originalPayment,
      currency = varchar 3 (currency originalPayment),
      payment_status = (if gateway_outcome w then REFUNDED else FAILED),
      payment_method = map_option (varchar 50) (payment_method originalPayment),
      external_transaction_id = Some (varchar 255 (''rfnd_'' @ transaction_suffix w)),
      payment_created_at = now w,
      payment_updated_at = now w\<rparr>"

definition refundPayment ::
  "payment_world \<Rightarrow> refund_payment_request \<Rightarrow> database
     \<Rightarrow> (error + payment_transaction) \<times> database" where
  "refundPayment w request db =
     (case getPaymentById (refund_payment_id request) db of
        None \<Rightarrow> (Inl Payment_not_found, db)
      | Some originalPayment \<Rightarrow>
          if payment_status originalPayment \<noteq> COMPLETED
          then (Inl Can_only_refund_completed_payments, db)
          else
            (case insert_payment (refund_row w request originalPayment) db of
               Inl e \<Rightarrow> (Inl e, db)
             | Inr db' \<Rightarrow> (Inr (refund_row w request originalPayment), db')))"

subsection \<open>getPaymentSummaryByOrderId\<close>

text \<open>
  SQL's \<^verbatim>\<open>SUM\<close> is \<^verbatim>\<open>NULL\<close> over no rows; \<^verbatim>\<open>COALESCE(x, 0)\<close> replaces the \<^verbatim>\<open>NULL\<close>.
\<close>

definition sql_sum :: "int list \<Rightarrow> int option" where
  "sql_sum xs = (if xs = [] then None else Some (sum_list xs))"

definition coalesce :: "int option \<Rightarrow> int \<Rightarrow> int" where
  "coalesce x d = (case x of None \<Rightarrow> d | Some v \<Rightarrow> v)"

text \<open>
  \<^verbatim>\<open>ORDER BY created_at DESC LIMIT 1\<close>: a row with the greatest \<^verbatim>\<open>created_at\<close>. Among
  rows with the same \<^verbatim>\<open>created_at\<close> PostgreSQL returns any one; the model returns the
  first of them in the table.
\<close>

fun order_by_created_at_desc_limit_1 ::
  "payment_transaction list \<Rightarrow> payment_transaction option" where
  "order_by_created_at_desc_limit_1 [] = None"
| "order_by_created_at_desc_limit_1 (p # ps) =
     (case order_by_created_at_desc_limit_1 ps of
        None \<Rightarrow> Some p
      | Some q \<Rightarrow> if payment_created_at p < payment_created_at q then Some q else Some p)"

text \<open>The \<^verbatim>\<open>WHERE\<close> clause of the aggregate query.\<close>

definition summary_rows :: "uuid \<Rightarrow> database \<Rightarrow> payment_transaction list" where
  "summary_rows orderId db =
     filter (\<lambda>p. payment_order_id p = orderId
                  \<and> (payment_status p = COMPLETED \<or> payment_status p = REFUNDED))
       (payments db)"

text \<open>
  An aggregate query without \<^verbatim>\<open>GROUP BY\<close> returns exactly one row, so
  \<^verbatim>\<open>result.rows[0]\<close> is that row and the object after \<^verbatim>\<open>||\<close> is never returned. The
  subquery of \<^verbatim>\<open>latest_status\<close> has its own \<^verbatim>\<open>WHERE order_id = $1\<close>, without the filter
  on \<^verbatim>\<open>status\<close>.
\<close>

definition getPaymentSummaryByOrderId :: "uuid \<Rightarrow> database \<Rightarrow> payment_summary" where
  "getPaymentSummaryByOrderId orderId db =
     \<lparr>total_paid =
        coalesce (sql_sum (map (\<lambda>p. if amount_cents p > 0 then amount_cents p else 0)
                             (summary_rows orderId db))) 0,
      total_refunded =
        coalesce (map_option abs
                    (sql_sum (map (\<lambda>p. if amount_cents p < 0 then amount_cents p else 0)
                                (summary_rows orderId db)))) 0,
      net_amount = coalesce (sql_sum (map amount_cents (summary_rows orderId db))) 0,
      payment_count = length (summary_rows orderId db),
      latest_status =
        map_option payment_status
          (order_by_created_at_desc_limit_1
             (filter (\<lambda>p. payment_order_id p = orderId) (payments db)))\<rparr>"

section \<open>Specification functions\<close>

text \<open>The total stock of every row of \<^verbatim>\<open>inventory\<close>: available plus reserved, by SKU.\<close>

definition total_stock :: "inventory_item list \<Rightarrow> (string \<times> int) list" where
  "total_stock rows = map (\<lambda>r. (sku r, available_quantity r + reserved_quantity r)) rows"

text \<open>The quantity a batch of items requests of one SKU, over all its items.\<close>

definition requested :: "reserve_item list \<Rightarrow> string \<Rightarrow> int" where
  "requested its k = sum_list (map item_quantity (filter (\<lambda>i. item_sku i = k) its))"

text \<open>The quantity a list of reservations holds of one SKU.\<close>

definition held :: "inventory_reservation list \<Rightarrow> string \<Rightarrow> int" where
  "held rs k = sum_list (map quantity (filter (\<lambda>r. reservation_sku r = k) rs))"

text \<open>
  The ledger covers the reservations: every reservation has a positive quantity, and for
  every row of \<^verbatim>\<open>inventory\<close> the reserved quantity is at least what the RESERVED and
  CONFIRMED reservations hold of its SKU, the row satisfies its constraints, and its total
  stock is in the range of \<^verbatim>\<open>INTEGER\<close>.
\<close>

definition live :: "inventory_reservation \<Rightarrow> bool" where
  "live r = (status r = RESERVED \<or> status r = CONFIRMED)"

definition ledger_covers :: "database \<Rightarrow> bool" where
  "ledger_covers db =
     (list_all (\<lambda>x. 0 < quantity x) (inventory_reservations db)
      \<and> list_all
            (\<lambda>r. held (filter live (inventory_reservations db)) (sku r) \<le> reserved_quantity r
                 \<and> available_quantity r + reserved_quantity r \<le> 2147483647
                 \<and> inventory_check r)
            (inventory db))"

section \<open>Sample data\<close>

text \<open>
  The rows the initialisation scripts insert (\<^verbatim>\<open>01-init-tables.sql\<close>,
  \<^verbatim>\<open>03-init-payments.sql\<close> and the inventory script); generated ids and timestamps are
  fixed values here, and the descriptions of the items are left out.
\<close>

definition seed_orders :: "order_row list" where
  "seed_orders =
     [\<lparr>order_pk = UUID 0x550e8400e29b41d4a716446655440001, user_id = ''user-123'',
       order_status = ''PENDING''\<rparr>,
      \<lparr>order_pk = UUID 0x550e8400e29b41d4a716446655440002, user_id = ''user-456'',
       order_status = ''CONFIRMED''\<rparr>]"

definition seed_item :: "nat \<Rightarrow> string \<Rightarrow> string \<Rightarrow> int \<Rightarrow> int \<Rightarrow> inventory_item" where
  "seed_item n k nm a p =
     \<lparr>item_id = UUID n, sku = k, name = nm, description = None,
      available_quantity = a, reserved_quantity = 0, price_cents = p,
      item_created_at = 0, item_updated_at = 0\<rparr>"

definition seed_inventory :: "inventory_item list" where
  "seed_inventory =
     [seed_item 1 ''item-001'' ''Premium Widget'' 100 2500,
      seed_item 2 ''item-002'' ''Standard Widget'' 50 1500,
      seed_item 3 ''item-003'' ''Economy Widget'' 200 999,
      seed_item 4 ''item-004'' ''Deluxe Widget'' 25 4999]"

definition seed_payment :: "nat \<Rightarrow> int \<Rightarrow> string \<Rightarrow> string \<Rightarrow> payment_transaction" where
  "seed_payment n a m t =
     \<lparr>payment_id = UUID n,
      payment_order_id = UUID 0x550e8400e29b41d4a716446655440001,
      amount_cents = a, currency = ''USD'', payment_status = COMPLETED,
      payment_method = Some m, external_transaction_id = Some t,
      payment_created_at = 0, payment_updated_at = 0\<rparr>"

definition seed_payments :: "payment_transaction list" where
  "seed_payments =
     [seed_payment 11 2500 ''credit_card'' ''txn_sample_001'',
      seed_payment 12 1500 ''paypal'' ''txn_sample_002'']"

definition seed_db :: database where
  "seed_db = \<lparr>orders = seed_orders, inventory = seed_inventory,
              inventory_reservations = [], payments = seed_payments\<rparr>"

text \<open>The two orders of the seed, and a clock and id supply for the sample calls.\<close>

definition order1 :: uuid where
  "order1 = UUID 0x550e8400e29b41d4a716446655440001"

definition order2 :: uuid where
  "order2 = UUID 0x550e8400e29b41d4a716446655440002"

definition sample_world :: "timestamp \<Rightarrow> nat \<Rightarrow> world" where
  "sample_world t n =
     \<lparr>date_now = t, current_timestamp = t, gen_random_uuid = (\<lambda>i. UUID (n + i))\<rparr>"

definition sample_payment_world :: "timestamp \<Rightarrow> nat \<Rightarrow> bool \<Rightarrow> payment_world" where
  "sample_payment_world t n ok =
     \<lparr>uuidv4 = UUID n, transaction_suffix = ''0_abcdefghi'',
      gateway_outcome = ok, now = t\<rparr>"

text \<open>
  The scenario of the spec: order 1 reserves 2 of \<^verbatim>\<open>item-001\<close> and 1 of \<^verbatim>\<open>item-002\<close> at
  time 1000 with the default expiration, and the database that the call leaves.
\<close>

definition sample_request :: reserve_inventory_request where
  "sample_request =
     \<lparr>request_order_id = order1,
      items = [\<lparr>item_sku = ''item-001'', item_quantity = 2\<rparr>,
               \<lparr>item_sku = ''item-002'', item_quantity = 1\<rparr>],
      expiration_minutes = None\<rparr>"

definition sample_reservation ::
  "nat \<Rightarrow> string \<Rightarrow> int \<Rightarrow> reservation_status \<Rightarrow> timestamp \<Rightarrow> inventory_reservation" where
  "sample_reservation n k q st t =
     \<lparr>reservation_id = UUID n, order_id = order1, reservation_sku = k, quantity = q,
      status = st, expires_at = 1801000, created_at = 1000, updated_at = t\<rparr>"

definition held_item :: "inventory_item \<Rightarrow> int \<Rightarrow> int \<Rightarrow> timestamp \<Rightarrow> inventory_item" where
  "held_item r a q t =
     r\<lparr>available_quantity := a, reserved_quantity := q, item_updated_at := t\<rparr>"

definition held_db :: database where
  "held_db =
     \<lparr>orders = seed_orders,
      inventory =
        [held_item (seed_item 1 ''item-001'' ''Premium Widget'' 100 2500) 98 2 1000,
         held_item (seed_item 2 ''item-002'' ''Standard Widget'' 50 1500) 49 1 1000,
         seed_item 3 ''item-003'' ''Economy Widget'' 200 999,
         seed_item 4 ''item-004'' ''Deluxe Widget'' 25 4999],
      inventory_reservations =
        [sample_reservation 100 ''item-001'' 2 RESERVED 1000,
         sample_reservation 101 ''item-002'' 1 RESERVED 1000],
      payments = seed_payments\<rparr>"

text \<open>The database after order 1 has released its reservations at time 3000.\<close>

definition released_db :: database where
  "released_db =
     \<lparr>orders = seed_orders,
      inventory =
        [held_item (seed_item 1 ''item-001'' ''Premium Widget'' 100 2500) 100 0 3000,
         held_item (seed_item 2 ''item-002'' ''Standard Widget'' 50 1500) 50 0 3000,
         seed_item 3 ''item-003'' ''Economy Widget'' 200 999,
         seed_item 4 ''item-004'' ''Deluxe Widget'' 25 4999],
      inventory_reservations =
        [sample_reservation 100 ''item-001'' 2 RELEASED 3000,
         sample_reservation 101 ''item-002'' 1 RELEASED 3000],
      payments = seed_payments\<rparr>"

text \<open>Requests to the payment service for the sample calls.\<close>

definition sample_refund :: "nat \<Rightarrow> int option \<Rightarrow> refund_payment_request" where
  "sample_refund n a = \<lparr>refund_payment_id = UUID n, refund_amount_cents = a\<rparr>"

definition sample_process :: "int \<Rightarrow> process_payment_request" where
  "sample_process a =
     \<lparr>process_order_id = order2, process_amount_cents = a,
      process_currency = ''USD'', process_payment_method = ''credit_card''\<rparr>"

text \<open>
  A row of order \<open>ord\<close> as the sample calls write it: a payment for a positive amount, a
  refund for a negative one.
\<close>

definition sample_row ::
  "nat \<Rightarrow> uuid \<Rightarrow> int \<Rightarrow> payment_status \<Rightarrow> timestamp \<Rightarrow> payment_transaction" where
  "sample_row n ord a st t =
     \<lparr>payment_id = UUID n, payment_order_id = ord, amount_cents = a,
      currency = ''USD'', payment_status = st, payment_method = Some ''credit_card'',
      external_transaction_id =
        Some (if a < 0 then ''rfnd_0_abcdefghi'' else ''txn_0_abcdefghi''),
      payment_created_at = t, payment_updated_at = t\<rparr>"

section \<open>Lemmas about the statements and loops\<close>

subsection \<open>Statements that move stock keep the total\<close>

lemma update_inventory_Inr:
  "update_inventory k f rows = Inr rows' \<Longrightarrow>
     rows' = map (\<lambda>r. if sku r = k then f r else r) rows
     \<and> list_all inventory_check (map f (filter (\<lambda>r. sku r = k) rows))"
  by (auto simp: update_inventory_def split: if_splits)

lemma total_stock_debit:
  "update_inventory k (debit t q) rows = Inr rows' \<Longrightarrow> total_stock rows' = total_stock rows"
  by (auto dest!: update_inventory_Inr simp: total_stock_def debit_def)

lemma total_stock_credit:
  "update_inventory k (credit t q) rows = Inr rows' \<Longrightarrow> total_stock rows' = total_stock rows"
  by (auto dest!: update_inventory_Inr simp: total_stock_def credit_def)

lemma insert_reservation_Inr:
  "insert_reservation row db = Inr db' \<Longrightarrow>
     reservation_insert_ok db row
     \<and> db' = db\<lparr>inventory_reservations := inventory_reservations db @ [row]\<rparr>"
  by (auto simp: insert_reservation_def split: if_splits)

lemma reserve_loop_total_stock:
  "reserve_loop w request its db acc = Inr (db', acc') \<Longrightarrow>
     total_stock (inventory db') = total_stock (inventory db)"
proof (induction its arbitrary: db acc)
  case Nil
  then show ?case by simp
next
  case (Cons item rest)
  from Cons.prems obtain rows db1 where
    u: "update_inventory (item_sku item) (debit (current_timestamp w) (item_quantity item))
          (inventory db) = Inr rows"
    and i: "insert_reservation (new_reservation w request (length acc) item)
          (db\<lparr>inventory := rows\<rparr>) = Inr db1"
    and r: "reserve_loop w request rest db1
          (acc @ [new_reservation w request (length acc) item]) = Inr (db', acc')"
    by (auto split: list.splits if_splits sum.splits)
  from i have "inventory db1 = rows" by (auto dest!: insert_reservation_Inr)
  with Cons.IH [OF r] total_stock_debit [OF u] show ?case by simp
qed

lemma release_loop_total_stock:
  "release_loop w rs rows = Inr rows' \<Longrightarrow> total_stock rows' = total_stock rows"
proof (induction rs arbitrary: rows)
  case Nil
  then show ?case by simp
next
  case (Cons x rs)
  from Cons.prems obtain rows1 where
    u: "update_inventory (reservation_sku x) (credit (current_timestamp w) (quantity x)) rows
          = Inr rows1"
    and r: "release_loop w rs rows1 = Inr rows'"
    by (auto split: sum.splits)
  with Cons.IH [OF r] total_stock_credit [OF u] show ?case by simp
qed

lemma run_call_total_stock:
  "total_stock (inventory (run_call c db)) = total_stock (inventory db)"
proof (cases c)
  case (Reserve w request)
  then show ?thesis
    by (auto simp: reserveInventory_def split: sum.splits dest: reserve_loop_total_stock)
next
  case (Confirm w orderId)
  then show ?thesis by (simp add: confirmReservation_def)
next
  case (Release w orderId)
  then show ?thesis
    by (auto simp: releaseReservation_def split: sum.splits dest: release_loop_total_stock)
qed

subsection \<open>Unique keys\<close>

lemma filter_sku_unique:
  "distinct (map sku rows) \<Longrightarrow> r \<in> set rows \<Longrightarrow> filter (\<lambda>x. sku x = sku r) rows = [r]"
  by (induction rows) (auto simp: filter_empty_conv image_iff)

subsection \<open>Looking up and refunding a payment\<close>

lemma getPaymentById_None:
  "getPaymentById pid db = None \<longleftrightarrow> pid \<notin> set (map payment_id (payments db))"
proof -
  have "getPaymentById pid db = None \<longleftrightarrow> filter (\<lambda>p. payment_id p = pid) (payments db) = []"
    by (simp add: getPaymentById_def split: list.splits)
  also have "\<dots> \<longleftrightarrow> pid \<notin> set (map payment_id (payments db))"
    by (auto simp: filter_empty_conv)
  finally show ?thesis .
qed

lemma getPaymentById_Some:
  "getPaymentById pid db = Some p \<Longrightarrow> p \<in> set (payments db) \<and> payment_id p = pid"
proof -
  assume "getPaymentById pid db = Some p"
  then obtain ps where "filter (\<lambda>x. payment_id x = pid) (payments db) = p # ps"
    by (auto simp: getPaymentById_def split: list.splits)
  then have "p \<in> set (filter (\<lambda>x. payment_id x = pid) (payments db))" by simp
  then show ?thesis by simp
qed

lemma filter_payment_id_unique:
  "distinct (map payment_id ps) \<Longrightarrow> p \<in> set ps \<Longrightarrow>
     filter (\<lambda>x. payment_id x = payment_id p) ps = [p]"
  by (induction ps) (auto simp: filter_empty_conv image_iff)

lemma getPaymentById_unique:
  "distinct (map payment_id (payments db)) \<Longrightarrow> p \<in> set (payments db) \<Longrightarrow>
     getPaymentById (payment_id p) db = Some p"
  by (simp add: getPaymentById_def filter_payment_id_unique)

lemma getPaymentById_append:
  "getPaymentById pid db = Some p \<Longrightarrow>
     getPaymentById pid (db\<lparr>payments := payments db @ [row]\<rparr>) = Some p"
  by (auto simp: getPaymentById_def split: list.splits)

lemma varchar_fits: "length s \<le> n \<Longrightarrow> varchar n s = s"
  by (simp add: varchar_def)

lemma refundPayment_completed:
  "getPaymentById (refund_payment_id request) db = Some p \<Longrightarrow> payment_status p = COMPLETED \<Longrightarrow>
     refundPayment w request db =
       (if payment_insert_ok db (refund_row w request p)
        then (Inr (refund_row w request p),
              db\<lparr>payments := payments db @ [refund_row w request p]\<rparr>)
        else (Inl Constraint_violation, db))"
  by (simp add: refundPayment_def insert_payment_def)

lemmas seed_defs = seed_db_def seed_payments_def seed_payment_def seed_orders_def
  order1_def order2_def sample_payment_world_def sample_refund_def sample_process_def
  sample_row_def

lemma seed_refund_1000:
  "refundPayment (sample_payment_world 5 13 True) (sample_refund 11 (Some 1000)) seed_db
     = (Inr (sample_row 13 order1 (- 1000) REFUNDED 5),
        seed_db\<lparr>payments := seed_payments @ [sample_row 13 order1 (- 1000) REFUNDED 5]\<rparr>)"
  by (simp add: refundPayment_def getPaymentById_def insert_payment_def payment_insert_ok_def int4_def
      refund_row_def refundAmount_def varchar_def seed_defs)

lemma seed_refund_full:
  "refundPayment (sample_payment_world 5 13 True) (sample_refund 11 None) seed_db
     = (Inr (sample_row 13 order1 (- 2500) REFUNDED 5),
        seed_db\<lparr>payments := seed_payments @ [sample_row 13 order1 (- 2500) REFUNDED 5]\<rparr>)"
  by (simp add: refundPayment_def getPaymentById_def insert_payment_def payment_insert_ok_def int4_def
      refund_row_def refundAmount_def varchar_def seed_defs)

lemma seed_refund_refused:
  "refundPayment (sample_payment_world 5 13 False) (sample_refund 11 None) seed_db
     = (Inr (sample_row 13 order1 (- 2500) FAILED 5),
        seed_db\<lparr>payments := seed_payments @ [sample_row 13 order1 (- 2500) FAILED 5]\<rparr>)"
  by (simp add: refundPayment_def getPaymentById_def insert_payment_def payment_insert_ok_def
      int4_def refund_row_def refundAmount_def varchar_def seed_defs)

lemma seed_get_11:
  "getPaymentById (UUID 11) seed_db = Some (seed_payment 11 2500 ''credit_card'' ''txn_sample_001'')"
  by (simp add: getPaymentById_def seed_defs)


subsection \<open>The aggregate query\<close>

lemma latest_None:
  "order_by_created_at_desc_limit_1 ps = None \<longleftrightarrow> ps = []"
  by (induction ps) (auto split: option.splits)

lemma latest_Some:
  "order_by_created_at_desc_limit_1 ps = Some p \<Longrightarrow>
     p \<in> set ps \<and> (\<forall>q\<in>set ps. payment_created_at q \<le> payment_created_at p)"
proof (induction ps arbitrary: p)
  case Nil
  then show ?case by simp
next
  case (Cons x ps)
  show ?case
  proof (cases "order_by_created_at_desc_limit_1 ps")
    case None
    then have "ps = []" by (simp add: latest_None)
    with Cons.prems show ?thesis by simp
  next
    case (Some q)
    from Cons.IH [OF Some] have q: "q \<in> set ps"
      and m: "\<forall>y\<in>set ps. payment_created_at y \<le> payment_created_at q" by simp_all
    show ?thesis
    proof (cases "payment_created_at x < payment_created_at q")
      case True
      with Some Cons.prems have "p = q" by simp
      with q m True show ?thesis by auto
    next
      case False
      with Some Cons.prems have "p = x" by simp
      with m False show ?thesis by fastforce
    qed
  qed
qed

lemma coalesce_sql_sum: "coalesce (sql_sum xs) 0 = sum_list xs"
  by (simp add: coalesce_def sql_sum_def)

lemma coalesce_abs_sql_sum: "coalesce (map_option abs (sql_sum xs)) 0 = \<bar>sum_list xs\<bar>"
  by (simp add: coalesce_def sql_sum_def)

lemma summary_rows_filtered:
  "summary_rows orderId
     (db\<lparr>payments := filter (\<lambda>p. payment_status p = COMPLETED \<or> payment_status p = REFUNDED)
                         (payments db)\<rparr>)
   = summary_rows orderId db"
  by (auto simp: summary_rows_def intro: filter_cong)

lemma seed_process:
  "processPayment (sample_payment_world 1000 21 ok) (sample_process 2500) seed_db
     = (Inr (sample_row 21 order2 2500 (if ok then COMPLETED else FAILED) 1000),
        seed_db\<lparr>payments := seed_payments
           @ [sample_row 21 order2 2500 (if ok then COMPLETED else FAILED) 1000]\<rparr>)"
  by (simp add: processPayment_def insert_payment_def payment_insert_ok_def int4_def varchar_def Let_def seed_defs)

lemma seed_process_refund:
  "refundPayment (sample_payment_world 2000 22 True) (sample_refund 21 (Some 1000))
     (seed_db\<lparr>payments := seed_payments @ [sample_row 21 order2 2500 COMPLETED 1000]\<rparr>)
     = (Inr (sample_row 22 order2 (- 1000) REFUNDED 2000),
        seed_db\<lparr>payments := seed_payments
           @ [sample_row 21 order2 2500 COMPLETED 1000,
              sample_row 22 order2 (- 1000) REFUNDED 2000]\<rparr>)"
  by (simp add: refundPayment_def getPaymentById_def insert_payment_def payment_insert_ok_def int4_def
      refund_row_def refundAmount_def varchar_def seed_defs)

subsection \<open>The loop of reserveInventory\<close>


lemma requested_Cons:
  "requested (i # its) k = (if item_sku i = k then item_quantity i else 0) + requested its k"
  by (simp add: requested_def)

lemma requested_unrequested:
  "k \<notin> set (map item_sku its) \<Longrightarrow> requested its k = 0"
  by (induction its) (auto simp: requested_Cons, simp add: requested_def)

lemma debit_debit: "debit t a (debit t b r) = debit t (b + a) r"
  by (simp add: debit_def)

lemma sku_debit: "sku (debit t q r) = sku r"
  by (simp add: debit_def)


lemma reserve_loop_step:
  "reserve_loop w request (item # rest) db acc = Inr x \<Longrightarrow>
     \<exists>rows. update_inventory (item_sku item)
               (debit (current_timestamp w) (item_quantity item)) (inventory db) = Inr rows
       \<and> filter (\<lambda>r. sku r = item_sku item) (inventory db) \<noteq> []
       \<and> reservation_insert_ok (db\<lparr>inventory := rows\<rparr>)
            (new_reservation w request (length acc) item)
       \<and> reserve_loop w request rest
            (db\<lparr>inventory := rows,
                inventory_reservations :=
                  inventory_reservations db @ [new_reservation w request (length acc) item]\<rparr>)
            (acc @ [new_reservation w request (length acc) item]) = Inr x"
  by (auto split: list.splits if_splits sum.splits dest!: insert_reservation_Inr)

lemma reserve_loop_Inr:
  "reserve_loop w request its db acc = Inr (db', acc') \<Longrightarrow>
     inventory db' =
       map (\<lambda>r. if sku r \<in> set (map item_sku its)
                 then debit (current_timestamp w) (requested its (sku r)) r else r)
           (inventory db)
     \<and> inventory_reservations db' =
         inventory_reservations db
           @ map (\<lambda>(n, i). new_reservation w request n i) (enumerate (length acc) its)
     \<and> acc' = acc @ map (\<lambda>(n, i). new_reservation w request n i) (enumerate (length acc) its)
     \<and> orders db' = orders db \<and> payments db' = payments db"
proof (induction its arbitrary: db acc)
  case Nil
  then show ?case by (simp add: map_idI)
next
  case (Cons item rest)
  let ?k = "item_sku item" and ?q = "item_quantity item" and ?t = "current_timestamp w"
  let ?new = "new_reservation w request (length acc) item"
  from reserve_loop_step [OF Cons.prems] obtain rows where
    u: "update_inventory ?k (debit ?t ?q) (inventory db) = Inr rows"
    and r: "reserve_loop w request rest
            (db\<lparr>inventory := rows,
                inventory_reservations := inventory_reservations db @ [?new]\<rparr>)
            (acc @ [?new]) = Inr (db', acc')"
    by blast
  from u have rows: "rows = map (\<lambda>r. if sku r = ?k then debit ?t ?q r else r) (inventory db)"
    by (simp add: update_inventory_Inr)
  note ih = Cons.IH [OF r]
  have "inventory db' =
       map (\<lambda>r. if sku r \<in> set (map item_sku rest)
                 then debit ?t (requested rest (sku r)) r else r) rows"
    using ih by simp
  also have "\<dots> = map (\<lambda>r. if sku r \<in> set (map item_sku (item # rest))
                 then debit ?t (requested (item # rest) (sku r)) r else r) (inventory db)"
    unfolding rows
    by (auto simp: sku_debit debit_debit requested_Cons requested_unrequested)
  finally have inv: "inventory db' =
       map (\<lambda>r. if sku r \<in> set (map item_sku (item # rest))
                 then debit ?t (requested (item # rest) (sku r)) r else r) (inventory db)" .
  from ih have "inventory_reservations db' =
         inventory_reservations db
           @ map (\<lambda>(n, i). new_reservation w request n i) (enumerate (length acc) (item # rest))"
    and "acc' = acc @ map (\<lambda>(n, i). new_reservation w request n i)
                        (enumerate (length acc) (item # rest))"
    and "orders db' = orders db" and "payments db' = payments db"
    by simp_all
  with inv show ?case by blast
qed






lemmas inventory_defs = seed_db_def seed_inventory_def seed_item_def seed_orders_def
  held_db_def held_item_def sample_reservation_def sample_request_def sample_world_def
  order1_def order2_def


subsection \<open>The loop of releaseReservation\<close>

lemma held_Cons:
  "held (x # rs) k = (if reservation_sku x = k then quantity x else 0) + held rs k"
  by (simp add: held_def)

lemma held_unheld:
  "k \<notin> set (map reservation_sku rs) \<Longrightarrow> held rs k = 0"
  by (induction rs) (auto simp: held_Cons, simp add: held_def)

lemma held_nonneg:
  "\<forall>x\<in>set rs. 0 < quantity x \<Longrightarrow> 0 \<le> held rs k"
  by (induction rs) (auto simp: held_Cons, simp add: held_def)

lemma credit_credit: "credit t a (credit t b r) = credit t (b + a) r"
  by (simp add: credit_def)

lemma sku_credit: "sku (credit t q r) = sku r"
  by (simp add: credit_def)

lemma credit_columns:
  "credit t q r =
     r\<lparr>available_quantity := available_quantity r + q,
       reserved_quantity := reserved_quantity r - q,
       item_updated_at := t\<rparr>"
  by (simp add: credit_def)

lemma release_loop_Inr:
  "release_loop w rs rows = Inr rows' \<Longrightarrow>
     rows' = map (\<lambda>r. if sku r \<in> set (map reservation_sku rs)
                       then credit (current_timestamp w) (held rs (sku r)) r else r) rows"
proof (induction rs arbitrary: rows)
  case Nil
  then show ?case by (simp add: map_idI)
next
  case (Cons x rs)
  let ?k = "reservation_sku x" and ?q = "quantity x" and ?t = "current_timestamp w"
  from Cons.prems obtain rows1 where
    u: "update_inventory ?k (credit ?t ?q) rows = Inr rows1"
    and r: "release_loop w rs rows1 = Inr rows'"
    by (auto split: sum.splits)
  from u have rows1: "rows1 = map (\<lambda>r. if sku r = ?k then credit ?t ?q r else r) rows"
    by (simp add: update_inventory_Inr)
  from Cons.IH [OF r]
  have "rows' = map (\<lambda>r. if sku r \<in> set (map reservation_sku rs)
                       then credit ?t (held rs (sku r)) r else r) rows1" .
  also have "\<dots> = map (\<lambda>r. if sku r \<in> set (map reservation_sku (x # rs))
                       then credit ?t (held (x # rs) (sku r)) r else r) rows"
    unfolding rows1
    by (auto simp: sku_credit credit_credit held_Cons held_unheld)
  finally show ?case .
qed

lemma release_loop_succeeds:
  assumes "\<forall>x\<in>set rs. 0 < quantity x"
    and "\<forall>r\<in>set rows. held rs (sku r) \<le> reserved_quantity r
            \<and> available_quantity r + held rs (sku r) \<le> 2147483647
            \<and> inventory_check r"
  shows "\<exists>rows'. release_loop w rs rows = Inr rows'"
  using assms
proof (induction rs arbitrary: rows)
  case Nil
  then show ?case by simp
next
  case (Cons x rs)
  let ?k = "reservation_sku x" and ?q = "quantity x" and ?t = "current_timestamp w"
  let ?rows1 = "map (\<lambda>r. if sku r = ?k then credit ?t ?q r else r) rows"
  from Cons.prems(1) have pos: "0 < ?q" and rest_pos: "\<forall>x\<in>set rs. 0 < quantity x"
    by simp_all
  have rest_nonneg: "0 \<le> held rs k" for k
    using rest_pos by (rule held_nonneg)
  have enough: "?q + held rs ?k \<le> reserved_quantity r
      \<and> available_quantity r + (?q + held rs ?k) \<le> 2147483647 \<and> inventory_check r"
    if "r \<in> set rows" "sku r = ?k" for r
    using Cons.prems(2) that by (auto simp: held_Cons)
  have "list_all inventory_check (map (credit ?t ?q) (filter (\<lambda>r. sku r = ?k) rows))"
    using enough rest_nonneg [of ?k] pos
    by (fastforce simp: list_all_iff inventory_check_def int4_def credit_def)
  then have upd: "update_inventory ?k (credit ?t ?q) rows = Inr ?rows1"
    by (simp add: update_inventory_def)
  have "\<forall>r\<in>set ?rows1. held rs (sku r) \<le> reserved_quantity r
            \<and> available_quantity r + held rs (sku r) \<le> 2147483647
            \<and> inventory_check r"
  proof
    fix r1 assume "r1 \<in> set ?rows1"
    then obtain r where r: "r \<in> set rows"
      and r1: "r1 = (if sku r = ?k then credit ?t ?q r else r)" by auto
    show "held rs (sku r1) \<le> reserved_quantity r1
            \<and> available_quantity r1 + held rs (sku r1) \<le> 2147483647
            \<and> inventory_check r1"
    proof (cases "sku r = ?k")
      case True
      with enough [OF r] pos r1 rest_nonneg [of ?k] show ?thesis
        by (simp add: credit_def inventory_check_def int4_def)
    next
      case False
      with Cons.prems(2) r r1 show ?thesis by (auto simp: held_Cons)
    qed
  qed
  from Cons.IH [OF rest_pos this] upd show ?case by simp
qed

text \<open>Whether the loop succeeds does not depend on the clock.\<close>

lemma untimed_eq:
  "a\<lparr>item_updated_at := 0\<rparr> = b\<lparr>item_updated_at := 0\<rparr> \<Longrightarrow>
     sku a = sku b
     \<and> inventory_check (credit t q a) = inventory_check (credit t' q b)
     \<and> (credit t q a)\<lparr>item_updated_at := 0\<rparr> = (credit t' q b)\<lparr>item_updated_at := 0\<rparr>"
  by (cases a, cases b) (simp add: inventory_check_def int4_def credit_def)

lemma update_inventory_untimed:
  assumes "map (\<lambda>r. r\<lparr>item_updated_at := 0\<rparr>) rows = map (\<lambda>r. r\<lparr>item_updated_at := 0\<rparr>) rows'"
  shows "(\<exists>e. update_inventory k (credit t q) rows = Inl e
            \<and> update_inventory k (credit t' q) rows' = Inl e)
         \<or> (\<exists>a b. update_inventory k (credit t q) rows = Inr a
            \<and> update_inventory k (credit t' q) rows' = Inr b
            \<and> map (\<lambda>r. r\<lparr>item_updated_at := 0\<rparr>) a = map (\<lambda>r. r\<lparr>item_updated_at := 0\<rparr>) b)"
proof -
  from assms have len: "length rows = length rows'" by (rule map_eq_imp_length_eq)
  from len assms
  have "list_all inventory_check (map (credit t q) (filter (\<lambda>r. sku r = k) rows))
          = list_all inventory_check (map (credit t' q) (filter (\<lambda>r. sku r = k) rows'))
        \<and> map (\<lambda>r. r\<lparr>item_updated_at := 0\<rparr>) (map (\<lambda>r. if sku r = k then credit t q r else r) rows)
          = map (\<lambda>r. r\<lparr>item_updated_at := 0\<rparr>) (map (\<lambda>r. if sku r = k then credit t' q r else r) rows')"
  proof (induction rows rows' rule: list_induct2)
    case Nil
    then show ?case by simp
  next
    case (Cons a as b bs)
    from Cons.prems have ab: "a\<lparr>item_updated_at := 0\<rparr> = b\<lparr>item_updated_at := 0\<rparr>"
      and rest: "map (\<lambda>r. r\<lparr>item_updated_at := 0\<rparr>) as = map (\<lambda>r. r\<lparr>item_updated_at := 0\<rparr>) bs"
      by simp_all
    from untimed_eq [OF ab, of t q t'] Cons.IH [OF rest] ab show ?case by simp
  qed
  then show ?thesis by (simp add: update_inventory_def)
qed

lemma release_loop_untimed:
  "map (\<lambda>r. r\<lparr>item_updated_at := 0\<rparr>) rows = map (\<lambda>r. r\<lparr>item_updated_at := 0\<rparr>) rows' \<Longrightarrow>
     release_loop w rs rows = Inl e \<Longrightarrow> release_loop w' rs rows' = Inl e"
proof (induction rs arbitrary: rows rows')
  case Nil
  then show ?case by simp
next
  case (Cons x rs)
  from update_inventory_untimed [OF Cons.prems(1),
      of "reservation_sku x" "current_timestamp w" "quantity x" "current_timestamp w'"]
  show ?case
  proof (elim disjE exE conjE)
    fix e'
    assume "update_inventory (reservation_sku x) (credit (current_timestamp w) (quantity x)) rows = Inl e'"
      "update_inventory (reservation_sku x) (credit (current_timestamp w') (quantity x)) rows' = Inl e'"
    with Cons.prems(2) show ?thesis by simp
  next
    fix a b
    assume a: "update_inventory (reservation_sku x) (credit (current_timestamp w) (quantity x)) rows = Inr a"
      and b: "update_inventory (reservation_sku x) (credit (current_timestamp w') (quantity x)) rows' = Inr b"
      and ab: "map (\<lambda>r. r\<lparr>item_updated_at := 0\<rparr>) a = map (\<lambda>r. r\<lparr>item_updated_at := 0\<rparr>) b"
    from Cons.prems(2) a have "release_loop w rs a = Inl e" by simp
    from Cons.IH [OF ab this] b show ?thesis by simp
  qed
qed

lemma released_not_releasable:
  "filter (releasable orderId)
     (map (\<lambda>r. if releasable orderId r
               then r\<lparr>status := RELEASED, updated_at := t\<rparr> else r) rs) = []"
  by (induction rs) (simp_all add: releasable_def)

lemma releaseReservation_nothing:
  "filter (releasable orderId) (inventory_reservations db) = [] \<Longrightarrow>
     releaseReservation w orderId db = (Inr (), db)"
proof -
  assume none: "filter (releasable orderId) (inventory_reservations db) = []"
  then have "map (\<lambda>r. if releasable orderId r
                     then r\<lparr>status := RELEASED, updated_at := current_timestamp w\<rparr>
                     else r) (inventory_reservations db) = inventory_reservations db"
    by (intro map_idI) (auto simp: filter_empty_conv)
  with none show ?thesis by (simp add: releaseReservation_def)
qed

lemma releaseReservation_again:
  "snd (releaseReservation w' orderId (snd (releaseReservation w orderId db)))
     = snd (releaseReservation w orderId db)"
proof (cases "release_loop w (filter (releasable orderId) (inventory_reservations db))
                (inventory db)")
  case (Inl e)
  then have "release_loop w' (filter (releasable orderId) (inventory_reservations db))
                (inventory db) = Inl e"
    by (rule release_loop_untimed [OF refl])
  with Inl show ?thesis by (simp add: releaseReservation_def)
next
  case (Inr rows)
  then have "filter (releasable orderId)
      (inventory_reservations (snd (releaseReservation w orderId db))) = []"
    by (simp add: releaseReservation_def released_not_releasable)
  then show ?thesis by (simp add: releaseReservation_nothing)
qed

lemmas release_defs = releaseReservation_def update_inventory_def inventory_check_def int4_def
  credit_def releasable_def released_db_def

lemma held_release:
  "releaseReservation (sample_world 3000 0) order1 held_db = (Inr (), released_db)"
  by (simp add: release_defs inventory_defs)

subsection \<open>The ledger covers the reservations after every call\<close>

lemma held_append: "held (xs @ ys) k = held xs k + held ys k"
  by (simp add: held_def)

lemma held_new_reservations:
  "held (map (\<lambda>(n, i). new_reservation w request n i) (enumerate n its)) k = requested its k"
  by (induction its arbitrary: n)
     (simp_all add: held_def requested_def new_reservation_def)

lemma live_new_reservations:
  "filter live (map (\<lambda>(n, i). new_reservation w request n i) (enumerate n its))
     = map (\<lambda>(n, i). new_reservation w request n i) (enumerate n its)"
  by (induction its arbitrary: n) (simp_all add: live_def new_reservation_def)

lemma update_inventory_check:
  "update_inventory k f rows = Inr rows' \<Longrightarrow> list_all inventory_check rows \<Longrightarrow>
     list_all inventory_check rows'"
  by (auto dest!: update_inventory_Inr simp: list_all_iff)

lemma reserve_loop_check:
  "reserve_loop w request its db acc = Inr (db', acc') \<Longrightarrow>
     list_all inventory_check (inventory db) \<Longrightarrow>
     list_all inventory_check (inventory db') \<and> (\<forall>i\<in>set its. 0 < item_quantity i)"
proof (induction its arbitrary: db acc)
  case Nil
  then show ?case by simp
next
  case (Cons item rest)
  from reserve_loop_step [OF Cons.prems(1)] obtain rows where
    u: "update_inventory (item_sku item)
          (debit (current_timestamp w) (item_quantity item)) (inventory db) = Inr rows"
    and ok: "reservation_insert_ok (db\<lparr>inventory := rows\<rparr>)
          (new_reservation w request (length acc) item)"
    and r: "reserve_loop w request rest
            (db\<lparr>inventory := rows,
                inventory_reservations :=
                  inventory_reservations db @ [new_reservation w request (length acc) item]\<rparr>)
            (acc @ [new_reservation w request (length acc) item]) = Inr (db', acc')"
    by blast
  from update_inventory_check [OF u Cons.prems(2)]
  have "list_all inventory_check rows" .
  with Cons.IH [OF r] have "list_all inventory_check (inventory db')"
    and "\<forall>i\<in>set rest. 0 < item_quantity i" by simp_all
  moreover from ok have "0 < item_quantity item"
    by (simp add: reservation_insert_ok_def new_reservation_def)
  ultimately show ?case by simp
qed

lemma release_loop_check:
  "release_loop w rs rows = Inr rows' \<Longrightarrow> list_all inventory_check rows \<Longrightarrow>
     list_all inventory_check rows'"
proof (induction rs arbitrary: rows)
  case Nil
  then show ?case by simp
next
  case (Cons x rs)
  from Cons.prems(1) obtain rows1 where
    u: "update_inventory (reservation_sku x) (credit (current_timestamp w) (quantity x)) rows
          = Inr rows1"
    and r: "release_loop w rs rows1 = Inr rows'"
    by (auto split: sum.splits)
  from Cons.IH [OF r update_inventory_check [OF u Cons.prems(2)]] show ?case .
qed

lemma ledger_covers_reserve:
  assumes "ledger_covers db"
  shows "ledger_covers (snd (reserveInventory w request db))"
proof (cases "reserve_loop w request (items request) db []")
  case (Inl e)
  with assms show ?thesis by (simp add: reserveInventory_def)
next
  case (Inr x)
  obtain db' acc' where x: "x = (db', acc')" by (cases x)
  let ?its = "items request"
  let ?new = "map (\<lambda>(n, i). new_reservation w request n i) (enumerate 0 ?its)"
  from Inr x have loop: "reserve_loop w request ?its db [] = Inr (db', acc')" by simp
  from reserve_loop_Inr [OF loop]
  have inv: "inventory db' =
       map (\<lambda>r. if sku r \<in> set (map item_sku ?its)
                 then debit (current_timestamp w) (requested ?its (sku r)) r else r)
           (inventory db)"
    and res: "inventory_reservations db' = inventory_reservations db @ ?new"
    by simp_all
  from assms have chk: "list_all inventory_check (inventory db)"
    by (simp add: ledger_covers_def list_all_iff)
  from reserve_loop_check [OF loop chk]
  have chk': "list_all inventory_check (inventory db')"
    and pos: "\<forall>i\<in>set ?its. 0 < item_quantity i" by simp_all
  have new_pos: "list_all (\<lambda>x. 0 < quantity x) ?new"
    using pos by (auto simp: list_all_iff new_reservation_def in_set_enumerate_eq)
  have held': "held (filter live (inventory_reservations db')) k
      = held (filter live (inventory_reservations db)) k + requested ?its k" for k
    by (simp add: res live_new_reservations held_append held_new_reservations)
  have "held (filter live (inventory_reservations db')) (sku r') \<le> reserved_quantity r'
          \<and> available_quantity r' + reserved_quantity r' \<le> 2147483647
          \<and> inventory_check r'"
    if "r' \<in> set (inventory db')" for r'
  proof -
    from that inv obtain r where r: "r \<in> set (inventory db)"
      and r': "r' = (if sku r \<in> set (map item_sku ?its)
                 then debit (current_timestamp w) (requested ?its (sku r)) r else r)"
      by auto
    from assms r have cov: "held (filter live (inventory_reservations db)) (sku r)
          \<le> reserved_quantity r"
      "available_quantity r + reserved_quantity r \<le> 2147483647"
      by (simp_all add: ledger_covers_def list_all_iff)
    from chk' that have c: "inventory_check r'" by (simp add: list_all_iff)
    show ?thesis
    proof (cases "sku r \<in> set (map item_sku ?its)")
      case True
      with r' cov c show ?thesis by (simp add: held' debit_def)
    next
      case False
      then have "requested ?its (sku r) = 0" by (rule requested_unrequested)
      with False r' cov c show ?thesis by (simp add: held')
    qed
  qed
  moreover from assms new_pos
  have "list_all (\<lambda>x. 0 < quantity x) (inventory_reservations db')"
    by (simp add: res ledger_covers_def)
  ultimately have "ledger_covers db'" by (simp add: ledger_covers_def list_all_iff)
  with loop show ?thesis by (simp add: reserveInventory_def)
qed

lemma held_live_map:
  assumes "\<And>r. live (f r) = live r \<and> reservation_sku (f r) = reservation_sku r
             \<and> quantity (f r) = quantity r"
  shows "held (filter live (map f rs)) k = held (filter live rs) k"
  by (induction rs) (simp_all add: held_def assms)

lemma positive_map:
  assumes "\<And>r. quantity (f r) = quantity r"
  shows "list_all (\<lambda>x. 0 < quantity x) (map f rs) = list_all (\<lambda>x. 0 < quantity x) rs"
  by (induction rs) (simp_all add: assms)

lemma ledger_covers_confirm:
  "ledger_covers db \<Longrightarrow> ledger_covers (snd (confirmReservation w orderId db))"
proof -
  let ?f = "\<lambda>r. if order_id r = orderId \<and> status r = RESERVED
                then r\<lparr>status := CONFIRMED, updated_at := current_timestamp w\<rparr> else r"
  assume a: "ledger_covers db"
  have "held (filter live (map ?f (inventory_reservations db))) k
      = held (filter live (inventory_reservations db)) k" for k
    by (rule held_live_map) (simp add: live_def)
  moreover have "list_all (\<lambda>x. 0 < quantity x) (map ?f (inventory_reservations db))
      = list_all (\<lambda>x. 0 < quantity x) (inventory_reservations db)"
    by (rule positive_map) simp
  ultimately show ?thesis
    using a by (simp add: ledger_covers_def confirmReservation_def)
qed

lemma held_live_released:
  "held (filter live
      (map (\<lambda>r. if releasable orderId r
                then r\<lparr>status := RELEASED, updated_at := t\<rparr> else r) rs)) k
   = held (filter live rs) k - held (filter (releasable orderId) rs) k"
  by (induction rs) (auto simp: held_Cons live_def releasable_def, simp_all add: held_def)

lemma held_releasable_le:
  "list_all (\<lambda>x. 0 < quantity x) rs \<Longrightarrow>
     held (filter (releasable orderId) rs) k \<le> held (filter live rs) k"
  by (induction rs) (auto simp: held_Cons live_def releasable_def)

lemma ledger_covers_released:
  assumes "ledger_covers db"
  shows "fst (releaseReservation w orderId db) = Inr ()"
proof -
  let ?live = "filter (releasable orderId) (inventory_reservations db)"
  from assms have pos: "list_all (\<lambda>x. 0 < quantity x) (inventory_reservations db)"
    by (simp add: ledger_covers_def)
  then have "\<forall>x\<in>set ?live. 0 < quantity x" by (simp add: list_all_iff)
  moreover have "\<forall>r\<in>set (inventory db). held ?live (sku r) \<le> reserved_quantity r
            \<and> available_quantity r + held ?live (sku r) \<le> 2147483647
            \<and> inventory_check r"
  proof
    fix r assume "r \<in> set (inventory db)"
    with assms have "held (filter live (inventory_reservations db)) (sku r) \<le> reserved_quantity r"
      and "available_quantity r + reserved_quantity r \<le> 2147483647"
      and "inventory_check r"
      by (simp_all add: ledger_covers_def list_all_iff)
    with held_releasable_le [OF pos, of orderId "sku r"]
    show "held ?live (sku r) \<le> reserved_quantity r
            \<and> available_quantity r + held ?live (sku r) \<le> 2147483647
            \<and> inventory_check r"
      by simp
  qed
  ultimately have "\<exists>rows'. release_loop w ?live (inventory db) = Inr rows'"
    by (rule release_loop_succeeds)
  then show ?thesis by (auto simp: releaseReservation_def)
qed

lemma ledger_covers_release:
  assumes "ledger_covers db"
  shows "ledger_covers (snd (releaseReservation w orderId db))"
proof (cases "release_loop w (filter (releasable orderId) (inventory_reservations db))
                (inventory db)")
  case (Inl e)
  with assms show ?thesis by (simp add: releaseReservation_def)
next
  case (Inr rows)
  let ?live = "filter (releasable orderId) (inventory_reservations db)"
  let ?t = "current_timestamp w"
  let ?res = "map (\<lambda>r. if releasable orderId r
                        then r\<lparr>status := RELEASED, updated_at := ?t\<rparr> else r)
                (inventory_reservations db)"
  from release_loop_Inr [OF Inr]
  have rows: "rows = map (\<lambda>r. if sku r \<in> set (map reservation_sku ?live)
                       then credit ?t (held ?live (sku r)) r else r) (inventory db)" .
  from assms have chk: "list_all inventory_check (inventory db)"
    by (simp add: ledger_covers_def list_all_iff)
  from release_loop_check [OF Inr chk] have chk': "list_all inventory_check rows" .
  have "held (filter live ?res) (sku r') \<le> reserved_quantity r'
          \<and> available_quantity r' + reserved_quantity r' \<le> 2147483647
          \<and> inventory_check r'"
    if "r' \<in> set rows" for r'
  proof -
    from that rows obtain r where r: "r \<in> set (inventory db)"
      and r': "r' = (if sku r \<in> set (map reservation_sku ?live)
                       then credit ?t (held ?live (sku r)) r else r)"
      by auto
    from assms r have cov: "held (filter live (inventory_reservations db)) (sku r)
          \<le> reserved_quantity r"
      "available_quantity r + reserved_quantity r \<le> 2147483647"
      by (simp_all add: ledger_covers_def list_all_iff)
    from chk' that have c: "inventory_check r'" by (simp add: list_all_iff)
    show ?thesis
    proof (cases "sku r \<in> set (map reservation_sku ?live)")
      case True
      with r' cov c show ?thesis by (simp add: held_live_released credit_def)
    next
      case False
      then have "held ?live (sku r) = 0" by (rule held_unheld)
      with False r' cov c show ?thesis by (simp add: held_live_released)
    qed
  qed
  moreover have "list_all (\<lambda>x. 0 < quantity x) ?res
      = list_all (\<lambda>x. 0 < quantity x) (inventory_reservations db)"
    by (rule positive_map) simp
  with assms have "list_all (\<lambda>x. 0 < quantity x) ?res"
    by (simp add: ledger_covers_def)
  ultimately have "ledger_covers (db\<lparr>inventory := rows, inventory_reservations := ?res\<rparr>)"
    by (simp add: ledger_covers_def list_all_iff)
  with Inr show ?thesis by (simp add: releaseReservation_def)
qed

lemma ledger_covers_run_calls:
  "ledger_covers db \<Longrightarrow> ledger_covers (run_calls cs db)"
proof (induction cs arbitrary: db)
  case Nil
  then show ?case by simp
next
  case (Cons c cs)
  from Cons.prems have "ledger_covers (run_call c db)"
    by (cases c)
       (simp_all add: ledger_covers_reserve ledger_covers_confirm ledger_covers_release)
  with Cons.IH show ?case by simp
qed

lemma ledger_covers_seed: "ledger_covers seed_db"
  by (simp add: ledger_covers_def inventory_defs held_def inventory_check_def int4_def)

section \<open>Total stock is invariant\<close>

text \<open>
  C3. For every SKU, available_quantity + reserved_quantity is the same after any sequence
  of reserve, confirm and release calls, with any arguments, whether a call succeeds or
  fails (a failed call is rolled back), as it was before the sequence.
\<close>

theorem total_stock_invariant:
  "total_stock (inventory (run_calls cs db)) = total_stock (inventory db)"
  by (induction cs arbitrary: db) (simp_all add: run_call_total_stock)

section \<open>checkAvailability reads and never writes\<close>

text \<open>
  C9. checkAvailability(sku, qty) leaves the database as it found it. For a SKU that no
  row of inventory has, it returns is_available = false and available_quantity = 0 (and
  no price) as a normal result. For a known SKU (the column is UNIQUE, so one row has it)
  it returns is_available = (available_quantity >= qty) with that row's
  available_quantity and price_cents.
\<close>

theorem checkAvailability_read_only:
  "snd (checkAvailability k q db) = db
   \<and> (k \<notin> set (map sku (inventory db)) \<longrightarrow>
        fst (checkAvailability k q db) =
          \<lparr>check_sku = k, requested_quantity = q, check_available_quantity = 0,
           is_available = False, check_price_cents = None\<rparr>)
   \<and> (\<forall>r. distinct (map sku (inventory db)) \<and> r \<in> set (inventory db) \<and> sku r = k \<longrightarrow>
        fst (checkAvailability k q db) =
          \<lparr>check_sku = k, requested_quantity = q,
           check_available_quantity = available_quantity r,
           is_available = (q \<le> available_quantity r),
           check_price_cents = Some (price_cents r)\<rparr>)"
proof (intro conjI allI impI)
  show "snd (checkAvailability k q db) = db"
    by (simp add: checkAvailability_def split: list.split)
next
  assume "k \<notin> set (map sku (inventory db))"
  then have "filter (\<lambda>r. sku r = k) (inventory db) = []"
    by (auto simp: filter_empty_conv)
  then show "fst (checkAvailability k q db) =
          \<lparr>check_sku = k, requested_quantity = q, check_available_quantity = 0,
           is_available = False, check_price_cents = None\<rparr>"
    by (simp add: checkAvailability_def)
next
  fix r
  assume a: "distinct (map sku (inventory db)) \<and> r \<in> set (inventory db) \<and> sku r = k"
  then have "filter (\<lambda>x. sku x = k) (inventory db) = [r]"
    using filter_sku_unique [of "inventory db" r] by auto
  then show "fst (checkAvailability k q db) =
          \<lparr>check_sku = k, requested_quantity = q,
           check_available_quantity = available_quantity r,
           is_available = (q \<le> available_quantity r),
           check_price_cents = Some (price_cents r)\<rparr>"
    by (simp add: checkAvailability_def)
qed

theorem checkAvailability_read_only_witness:
  "snd (checkAvailability ''unknown-sku'' 1 seed_db) = seed_db
   \<and> \<not> is_available (fst (checkAvailability ''unknown-sku'' 1 seed_db))
   \<and> check_available_quantity (fst (checkAvailability ''unknown-sku'' 1 seed_db)) = 0
   \<and> fst (checkAvailability ''item-002'' 50 seed_db) =
          \<lparr>check_sku = ''item-002'', requested_quantity = 50,
           check_available_quantity = 50, is_available = True,
           check_price_cents = Some 1500\<rparr>
   \<and> \<not> is_available (fst (checkAvailability ''item-002'' 51 seed_db))"
proof -
  have d: "distinct (map sku (inventory seed_db))"
    by (simp add: seed_db_def seed_inventory_def seed_item_def)
  have u: "''unknown-sku'' \<notin> set (map sku (inventory seed_db))"
    by (simp add: seed_db_def seed_inventory_def seed_item_def)
  have m: "seed_item 2 ''item-002'' ''Standard Widget'' 50 1500 \<in> set (inventory seed_db)"
    by (simp add: seed_db_def seed_inventory_def)
  have s: "sku (seed_item 2 ''item-002'' ''Standard Widget'' 50 1500) = ''item-002''"
    by (simp add: seed_item_def)
  show ?thesis
    using checkAvailability_read_only [of "''unknown-sku''" 1 seed_db]
      checkAvailability_read_only [of "''item-002''" 50 seed_db]
      checkAvailability_read_only [of "''item-002''" 51 seed_db]
      d u m s
    by (auto simp: seed_item_def)
qed

section \<open>confirmReservation\<close>

text \<open>
  C5. confirm(order_id) always succeeds. Every reservation of the order whose status is
  RESERVED becomes CONFIRMED (its updated_at is set, nothing else in the row changes);
  every other reservation, the inventory, the orders and the payments are unchanged; and
  when the order has no RESERVED reservation the call returns normally and leaves the
  database exactly as it was.
\<close>

theorem confirmReservation_effect:
  "fst (confirmReservation w orderId db) = Inr ()
   \<and> orders (snd (confirmReservation w orderId db)) = orders db
   \<and> inventory (snd (confirmReservation w orderId db)) = inventory db
   \<and> payments (snd (confirmReservation w orderId db)) = payments db
   \<and> length (inventory_reservations (snd (confirmReservation w orderId db)))
       = length (inventory_reservations db)
   \<and> (\<forall>i < length (inventory_reservations db).
         (order_id (inventory_reservations db ! i) = orderId
            \<and> status (inventory_reservations db ! i) = RESERVED \<longrightarrow>
          inventory_reservations (snd (confirmReservation w orderId db)) ! i
            = (inventory_reservations db ! i)
                \<lparr>status := CONFIRMED, updated_at := current_timestamp w\<rparr>)
         \<and> (\<not> (order_id (inventory_reservations db ! i) = orderId
                 \<and> status (inventory_reservations db ! i) = RESERVED) \<longrightarrow>
            inventory_reservations (snd (confirmReservation w orderId db)) ! i
              = inventory_reservations db ! i))
   \<and> (filter (\<lambda>r. order_id r = orderId \<and> status r = RESERVED)
         (inventory_reservations db) = [] \<longrightarrow>
       confirmReservation w orderId db = (Inr (), db))"
proof -
  have noop: "confirmReservation w orderId db = (Inr (), db)"
    if "filter (\<lambda>r. order_id r = orderId \<and> status r = RESERVED)
          (inventory_reservations db) = []"
  proof -
    from that have "map (\<lambda>r. if order_id r = orderId \<and> status r = RESERVED
                     then r\<lparr>status := CONFIRMED, updated_at := current_timestamp w\<rparr>
                     else r) (inventory_reservations db) = inventory_reservations db"
      by (intro map_idI) (auto simp: filter_empty_conv)
    then show ?thesis by (simp add: confirmReservation_def)
  qed
  show ?thesis
    using noop by (simp add: confirmReservation_def)
qed

theorem confirmReservation_effect_witness:
  "inventory_reservations (snd (confirmReservation (sample_world 2000 0) order1 held_db))
     = [sample_reservation 100 ''item-001'' 2 CONFIRMED 2000,
        sample_reservation 101 ''item-002'' 1 CONFIRMED 2000]
   \<and> inventory (snd (confirmReservation (sample_world 2000 0) order1 held_db))
       = inventory held_db
   \<and> confirmReservation (sample_world 2000 0) order2 held_db = (Inr (), held_db)"
proof -
  have e: "filter (\<lambda>r. order_id r = order2 \<and> status r = RESERVED)
             (inventory_reservations held_db) = []"
    by (simp add: held_db_def sample_reservation_def order1_def order2_def)
  have l: "inventory_reservations (snd (confirmReservation (sample_world 2000 0) order1 held_db))
     = [sample_reservation 100 ''item-001'' 2 CONFIRMED 2000,
        sample_reservation 101 ''item-002'' 1 CONFIRMED 2000]"
    using confirmReservation_effect [of "sample_world 2000 0" order1 held_db]
    by (simp add: list_eq_iff_nth_eq held_db_def sample_reservation_def sample_world_def
        nth_Cons' less_Suc_eq)
  show ?thesis
    using confirmReservation_effect [of "sample_world 2000 0" order2 held_db]
      confirmReservation_effect [of "sample_world 2000 0" order1 held_db] e l
    by simp
qed

section \<open>refundPayment\<close>

text \<open>
  C6. refundPayment fails with \<^verbatim>\<open>Payment not found\<close> (PaymentNotFound) for every
  payment_id that no row has, and with \<^verbatim>\<open>Can only refund completed payments\<close>
  (InvalidState) for every referenced row whose status is not COMPLETED; a call that fails
  leaves the table as it was. For a referenced row that is COMPLETED, the call appends
  exactly one row and returns it: its id is the generated one, its amount is the negated
  refund amount, which is the original's amount_cents when the request gives none, its
  status is REFUNDED when the gateway accepts and FAILED when it refuses, and its order_id,
  currency and payment_method are the original's. This is what happens whenever the
  generated id is new, the amount is in the range of INTEGER, the original row is one the
  table can hold (its order exists, its texts fit their columns) and the generated token
  fits its column; whenever a row is returned, it is this row and the only one appended.
  The payment_id names at most one row (primary key). In every case the rows that were in
  the table are still there, unchanged and in place.
\<close>

theorem refundPayment_contract:
  "(refund_payment_id request \<notin> set (map payment_id (payments db)) \<longrightarrow>
      refundPayment w request db = (Inl Payment_not_found, db))
   \<and> (\<forall>p. getPaymentById (refund_payment_id request) db = Some p
          \<and> payment_status p \<noteq> COMPLETED \<longrightarrow>
        refundPayment w request db = (Inl Can_only_refund_completed_payments, db))
   \<and> (\<forall>p. getPaymentById (refund_payment_id request) db = Some p
          \<and> payment_status p = COMPLETED
          \<and> uuidv4 w \<notin> set (map payment_id (payments db))
          \<and> int4 (- (case refund_amount_cents request of
                        None \<Rightarrow> amount_cents p
                      | Some a \<Rightarrow> if a = 0 then amount_cents p else a))
          \<and> payment_order_id p \<in> set (map order_pk (orders db))
          \<and> length (currency p) \<le> 3
          \<and> (\<forall>m. payment_method p = Some m \<longrightarrow> length m \<le> 50)
          \<and> length (transaction_suffix w) \<le> 250 \<longrightarrow>
        refundPayment w request db =
          (Inr \<lparr>payment_id = uuidv4 w,
                 payment_order_id = payment_order_id p,
                 amount_cents =
                   - (case refund_amount_cents request of
                        None \<Rightarrow> amount_cents p
                      | Some a \<Rightarrow> if a = 0 then amount_cents p else a),
                 currency = currency p,
                 payment_status = (if gateway_outcome w then REFUNDED else FAILED),
                 payment_method = payment_method p,
                 external_transaction_id = Some (''rfnd_'' @ transaction_suffix w),
                 payment_created_at = now w,
                 payment_updated_at = now w\<rparr>,
           db\<lparr>payments := payments db @
                [\<lparr>payment_id = uuidv4 w,
                  payment_order_id = payment_order_id p,
                  amount_cents =
                    - (case refund_amount_cents request of
                         None \<Rightarrow> amount_cents p
                       | Some a \<Rightarrow> if a = 0 then amount_cents p else a),
                  currency = currency p,
                  payment_status = (if gateway_outcome w then REFUNDED else FAILED),
                  payment_method = payment_method p,
                  external_transaction_id = Some (''rfnd_'' @ transaction_suffix w),
                  payment_created_at = now w,
                  payment_updated_at = now w\<rparr>]\<rparr>))
   \<and> (\<forall>row db'. refundPayment w request db = (Inr row, db') \<longrightarrow>
        db' = db\<lparr>payments := payments db @ [row]\<rparr>
        \<and> payment_id row = uuidv4 w
        \<and> payment_status row = (if gateway_outcome w then REFUNDED else FAILED)
        \<and> (\<exists>p. getPaymentById (refund_payment_id request) db = Some p
               \<and> payment_status p = COMPLETED
               \<and> payment_order_id row = payment_order_id p
               \<and> amount_cents row =
                   - (case refund_amount_cents request of
                        None \<Rightarrow> amount_cents p
                      | Some a \<Rightarrow> if a = 0 then amount_cents p else a)))
   \<and> (\<forall>e db'. refundPayment w request db = (Inl e, db') \<longrightarrow> db' = db)
   \<and> (\<forall>p. distinct (map payment_id (payments db)) \<and> p \<in> set (payments db) \<longrightarrow>
        getPaymentById (payment_id p) db = Some p)
   \<and> take (length (payments db)) (payments (snd (refundPayment w request db))) = payments db
   \<and> length (payments (snd (refundPayment w request db))) \<le> Suc (length (payments db))"
  (is "?unknown \<and> ?invalid \<and> ?written \<and> ?returned \<and> ?rollback \<and> ?unique \<and> ?kept \<and> ?one")
proof -
  have unknown: "refundPayment w request db = (Inl Payment_not_found, db)"
    if "refund_payment_id request \<notin> set (map payment_id (payments db))"
  proof -
    from that have "getPaymentById (refund_payment_id request) db = None"
      by (simp add: getPaymentById_None)
    then show ?thesis by (simp add: refundPayment_def)
  qed
  have invalid: "refundPayment w request db = (Inl Can_only_refund_completed_payments, db)"
    if "getPaymentById (refund_payment_id request) db = Some p \<and> payment_status p \<noteq> COMPLETED"
    for p
    using that by (simp add: refundPayment_def)
  have written: "refundPayment w request db =
          (Inr \<lparr>payment_id = uuidv4 w,
                 payment_order_id = payment_order_id p,
                 amount_cents =
                   - (case refund_amount_cents request of
                        None \<Rightarrow> amount_cents p
                      | Some a \<Rightarrow> if a = 0 then amount_cents p else a),
                 currency = currency p,
                 payment_status = (if gateway_outcome w then REFUNDED else FAILED),
                 payment_method = payment_method p,
                 external_transaction_id = Some (''rfnd_'' @ transaction_suffix w),
                 payment_created_at = now w,
                 payment_updated_at = now w\<rparr>,
           db\<lparr>payments := payments db @
                [\<lparr>payment_id = uuidv4 w,
                  payment_order_id = payment_order_id p,
                  amount_cents =
                    - (case refund_amount_cents request of
                         None \<Rightarrow> amount_cents p
                       | Some a \<Rightarrow> if a = 0 then amount_cents p else a),
                  currency = currency p,
                  payment_status = (if gateway_outcome w then REFUNDED else FAILED),
                  payment_method = payment_method p,
                  external_transaction_id = Some (''rfnd_'' @ transaction_suffix w),
                  payment_created_at = now w,
                  payment_updated_at = now w\<rparr>]\<rparr>)"
    if h: "getPaymentById (refund_payment_id request) db = Some p
          \<and> payment_status p = COMPLETED
          \<and> uuidv4 w \<notin> set (map payment_id (payments db))
          \<and> int4 (- (case refund_amount_cents request of
                        None \<Rightarrow> amount_cents p
                      | Some a \<Rightarrow> if a = 0 then amount_cents p else a))
          \<and> payment_order_id p \<in> set (map order_pk (orders db))
          \<and> length (currency p) \<le> 3
          \<and> (\<forall>m. payment_method p = Some m \<longrightarrow> length m \<le> 50)
          \<and> length (transaction_suffix w) \<le> 250"
    for p
  proof -
    from h have row: "refund_row w request p =
          \<lparr>payment_id = uuidv4 w,
           payment_order_id = payment_order_id p,
           amount_cents =
             - (case refund_amount_cents request of
                  None \<Rightarrow> amount_cents p
                | Some a \<Rightarrow> if a = 0 then amount_cents p else a),
           currency = currency p,
           payment_status = (if gateway_outcome w then REFUNDED else FAILED),
           payment_method = payment_method p,
           external_transaction_id = Some (''rfnd_'' @ transaction_suffix w),
           payment_created_at = now w,
           payment_updated_at = now w\<rparr>"
      by (cases "payment_method p")
         (simp_all add: refund_row_def refundAmount_def varchar_fits)
    from h have "payment_insert_ok db (refund_row w request p)"
      unfolding row by (auto simp: payment_insert_ok_def split: option.splits)
    with h have "refundPayment w request db =
        (Inr (refund_row w request p), db\<lparr>payments := payments db @ [refund_row w request p]\<rparr>)"
      by (simp add: refundPayment_completed)
    then show ?thesis unfolding row .
  qed
  have returned: "db' = db\<lparr>payments := payments db @ [row]\<rparr>
        \<and> payment_id row = uuidv4 w
        \<and> payment_status row = (if gateway_outcome w then REFUNDED else FAILED)
        \<and> (\<exists>p. getPaymentById (refund_payment_id request) db = Some p
               \<and> payment_status p = COMPLETED
               \<and> payment_order_id row = payment_order_id p
               \<and> amount_cents row =
                   - (case refund_amount_cents request of
                        None \<Rightarrow> amount_cents p
                      | Some a \<Rightarrow> if a = 0 then amount_cents p else a))"
    if "refundPayment w request db = (Inr row, db')" for row db'
  proof -
    from that obtain p where p: "getPaymentById (refund_payment_id request) db = Some p"
      and st: "payment_status p = COMPLETED"
      by (auto simp: refundPayment_def split: option.splits if_splits)
    from that refundPayment_completed [OF p st, of w]
    have "row = refund_row w request p" "db' = db\<lparr>payments := payments db @ [row]\<rparr>"
      by (auto split: if_splits)
    with p st show ?thesis by (simp add: refund_row_def refundAmount_def)
  qed
  have rollback: "db' = db" if "refundPayment w request db = (Inl e, db')" for e db'
    using that
    by (auto simp: refundPayment_def insert_payment_def split: option.splits if_splits)
  have unique: "getPaymentById (payment_id p) db = Some p"
    if "distinct (map payment_id (payments db)) \<and> p \<in> set (payments db)" for p
    using that by (simp add: getPaymentById_unique)
  have kept: ?kept
    by (simp add: refundPayment_def insert_payment_def split: option.splits)
  have one: ?one
    by (simp add: refundPayment_def insert_payment_def split: option.splits)
  have 1: ?unknown by (intro impI) (erule unknown)
  have 2: ?invalid by (intro allI impI) (erule invalid)
  have 3: ?written by (intro allI impI) (erule written)
  have 4: ?returned by (intro allI impI) (erule returned)
  have 5: ?rollback by (intro allI impI) (erule rollback)
  have 6: ?unique by (intro allI impI) (erule unique)
  from 1 2 3 4 5 6 kept one show ?thesis by (intro conjI)
qed

theorem refundPayment_contract_witness:
  "refundPayment (sample_payment_world 5 13 True) (sample_refund 99 None) seed_db
     = (Inl Payment_not_found, seed_db)
   \<and> refundPayment (sample_payment_world 5 13 True) (sample_refund 11 (Some 1000)) seed_db
     = (Inr (sample_row 13 order1 (- 1000) REFUNDED 5),
        seed_db\<lparr>payments := seed_payments @ [sample_row 13 order1 (- 1000) REFUNDED 5]\<rparr>)
   \<and> refundPayment (sample_payment_world 5 13 False) (sample_refund 11 None) seed_db
     = (Inr (sample_row 13 order1 (- 2500) FAILED 5),
        seed_db\<lparr>payments := seed_payments @ [sample_row 13 order1 (- 2500) FAILED 5]\<rparr>)
   \<and> refundPayment (sample_payment_world 6 14 True) (sample_refund 13 None)
       (seed_db\<lparr>payments := seed_payments @ [sample_row 13 order1 (- 1000) REFUNDED 5]\<rparr>)
     = (Inl Can_only_refund_completed_payments,
        seed_db\<lparr>payments := seed_payments @ [sample_row 13 order1 (- 1000) REFUNDED 5]\<rparr>)"
proof -
  let ?p = "seed_payment 11 2500 ''credit_card'' ''txn_sample_001''"
  let ?db1 = "seed_db\<lparr>payments := seed_payments @ [sample_row 13 order1 (- 1000) REFUNDED 5]\<rparr>"
  have unknown: "refund_payment_id (sample_refund 99 None) \<notin> set (map payment_id (payments seed_db))"
    by (simp add: seed_defs)
  have found: "getPaymentById (refund_payment_id (sample_refund 11 a)) seed_db = Some ?p" for a
    by (simp add: sample_refund_def seed_get_11)
  have completed: "payment_status ?p = COMPLETED"
    by (simp add: seed_payment_def)
  have fresh: "uuidv4 (sample_payment_world 5 13 ok) \<notin> set (map payment_id (payments seed_db))"
    for ok
    by (simp add: seed_defs)
  have stored: "payment_order_id ?p \<in> set (map order_pk (orders seed_db))"
    "length (currency ?p) \<le> 3"
    "\<forall>m. payment_method ?p = Some m \<longrightarrow> length m \<le> 50"
    by (simp_all add: seed_defs)
  have token: "length (transaction_suffix (sample_payment_world 5 13 ok)) \<le> 250" for ok
    by (simp add: sample_payment_world_def)
  have partial: "int4 (- (case refund_amount_cents (sample_refund 11 (Some 1000)) of
                        None \<Rightarrow> amount_cents ?p
                      | Some a \<Rightarrow> if a = 0 then amount_cents ?p else a))"
    and full: "int4 (- (case refund_amount_cents (sample_refund 11 None) of
                        None \<Rightarrow> amount_cents ?p
                      | Some a \<Rightarrow> if a = 0 then amount_cents ?p else a))"
    by (simp_all add: int4_def sample_refund_def seed_payment_def)
  have refund_of_refund: "getPaymentById (refund_payment_id (sample_refund 13 None)) ?db1
      = Some (sample_row 13 order1 (- 1000) REFUNDED 5)
      \<and> payment_status (sample_row 13 order1 (- 1000) REFUNDED 5) \<noteq> COMPLETED"
    by (simp add: getPaymentById_def seed_defs)
  from refundPayment_contract
         [where request = "sample_refund 99 None" and db = seed_db
            and w = "sample_payment_world 5 13 True"] unknown
  have c1: "refundPayment (sample_payment_world 5 13 True) (sample_refund 99 None) seed_db
      = (Inl Payment_not_found, seed_db)"
    by blast
  from refundPayment_contract
         [where request = "sample_refund 11 (Some 1000)" and db = seed_db
            and w = "sample_payment_world 5 13 True"]
       found [of "Some 1000"] completed fresh [of True] stored token [of True] partial
  obtain accepted where
    "refundPayment (sample_payment_world 5 13 True) (sample_refund 11 (Some 1000)) seed_db
       = (Inr accepted, seed_db\<lparr>payments := payments seed_db @ [accepted]\<rparr>)"
    by blast
  then have c2: "refundPayment (sample_payment_world 5 13 True) (sample_refund 11 (Some 1000)) seed_db
     = (Inr (sample_row 13 order1 (- 1000) REFUNDED 5), ?db1)"
    by (simp add: seed_refund_1000)
  from refundPayment_contract
         [where request = "sample_refund 11 None" and db = seed_db
            and w = "sample_payment_world 5 13 False"]
       found [of None] completed fresh [of False] stored token [of False] full
  obtain refused where
    "refundPayment (sample_payment_world 5 13 False) (sample_refund 11 None) seed_db
       = (Inr refused, seed_db\<lparr>payments := payments seed_db @ [refused]\<rparr>)"
    by blast
  then have c3: "refundPayment (sample_payment_world 5 13 False) (sample_refund 11 None) seed_db
     = (Inr (sample_row 13 order1 (- 2500) FAILED 5),
        seed_db\<lparr>payments := seed_payments @ [sample_row 13 order1 (- 2500) FAILED 5]\<rparr>)"
    by (simp add: seed_refund_refused)
  from refundPayment_contract
         [where request = "sample_refund 13 None" and db = ?db1
            and w = "sample_payment_world 6 14 True"] refund_of_refund
  have c4: "refundPayment (sample_payment_world 6 14 True) (sample_refund 13 None) ?db1
     = (Inl Can_only_refund_completed_payments, ?db1)"
    by blast
  from c1 c2 c3 c4 show ?thesis by (intro conjI)
qed



text \<open>
  C7, as the spec states it: a second refundPayment on a payment that was already refunded
  in full fails with InvalidState. It does not: the seed payment of 2500 is refunded in
  full, and the second call on the same payment_id returns a second REFUNDED row of -2500.
\<close>

theorem double_refund_not_rejected:
  "fst (refundPayment (sample_payment_world 5 13 True) (sample_refund 11 None) seed_db)
     = Inr (sample_row 13 order1 (- 2500) REFUNDED 5)
   \<and> fst (refundPayment (sample_payment_world 6 14 True) (sample_refund 11 None)
           (snd (refundPayment (sample_payment_world 5 13 True) (sample_refund 11 None) seed_db)))
     = Inr (sample_row 14 order1 (- 2500) REFUNDED 6)
   \<and> fst (refundPayment (sample_payment_world 6 14 True) (sample_refund 11 None)
           (snd (refundPayment (sample_payment_world 5 13 True) (sample_refund 11 None) seed_db)))
     \<noteq> Inl Can_only_refund_completed_payments"
  by (simp add: seed_refund_full)
     (simp add: refundPayment_def getPaymentById_def insert_payment_def payment_insert_ok_def int4_def
        refund_row_def refundAmount_def varchar_def seed_defs)

text \<open>
  C7, amended. A refund never changes the original row, so after a refund the original is
  still COMPLETED and a second refundPayment on the same payment_id is not rejected with
  InvalidState: it appends another refund row (or fails only because the database rejects
  the INSERT). InvalidState is raised exactly when the referenced row itself is not
  COMPLETED.
\<close>

theorem refundPayment_again:
  "(\<forall>p row db1.
       getPaymentById (refund_payment_id request) db = Some p
       \<and> refundPayment w request db = (Inr row, db1)
       \<and> refund_payment_id request' = refund_payment_id request \<longrightarrow>
       payment_status p = COMPLETED
       \<and> getPaymentById (refund_payment_id request') db1 = Some p
       \<and> refundPayment w' request' db1 =
           (if payment_insert_ok db1 (refund_row w' request' p)
            then (Inr (refund_row w' request' p),
                  db1\<lparr>payments := payments db1 @ [refund_row w' request' p]\<rparr>)
            else (Inl Constraint_violation, db1))
       \<and> fst (refundPayment w' request' db1) \<noteq> Inl Can_only_refund_completed_payments)
   \<and> (fst (refundPayment w request db) = Inl Can_only_refund_completed_payments \<longleftrightarrow>
        (\<exists>p. getPaymentById (refund_payment_id request) db = Some p
             \<and> payment_status p \<noteq> COMPLETED))"
proof (rule conjI)
  show "\<forall>p row db1.
       getPaymentById (refund_payment_id request) db = Some p
       \<and> refundPayment w request db = (Inr row, db1)
       \<and> refund_payment_id request' = refund_payment_id request \<longrightarrow>
       payment_status p = COMPLETED
       \<and> getPaymentById (refund_payment_id request') db1 = Some p
       \<and> refundPayment w' request' db1 =
           (if payment_insert_ok db1 (refund_row w' request' p)
            then (Inr (refund_row w' request' p),
                  db1\<lparr>payments := payments db1 @ [refund_row w' request' p]\<rparr>)
            else (Inl Constraint_violation, db1))
       \<and> fst (refundPayment w' request' db1) \<noteq> Inl Can_only_refund_completed_payments"
  proof (intro allI impI)
    fix p row db1
    assume a: "getPaymentById (refund_payment_id request) db = Some p
         \<and> refundPayment w request db = (Inr row, db1)
         \<and> refund_payment_id request' = refund_payment_id request"
    then have st: "payment_status p = COMPLETED"
      by (auto simp: refundPayment_def split: if_splits)
    with a have db1: "db1 = db\<lparr>payments := payments db @ [refund_row w request p]\<rparr>"
      by (auto simp: refundPayment_completed split: if_splits)
    with a have g: "getPaymentById (refund_payment_id request') db1 = Some p"
      by (simp add: getPaymentById_append)
    have r: "refundPayment w' request' db1 =
             (if payment_insert_ok db1 (refund_row w' request' p)
              then (Inr (refund_row w' request' p),
                    db1\<lparr>payments := payments db1 @ [refund_row w' request' p]\<rparr>)
              else (Inl Constraint_violation, db1))"
      using g st by (rule refundPayment_completed)
    then have "fst (refundPayment w' request' db1) \<noteq> Inl Can_only_refund_completed_payments"
      by simp
    with st g r show "payment_status p = COMPLETED
         \<and> getPaymentById (refund_payment_id request') db1 = Some p
         \<and> refundPayment w' request' db1 =
             (if payment_insert_ok db1 (refund_row w' request' p)
              then (Inr (refund_row w' request' p),
                    db1\<lparr>payments := payments db1 @ [refund_row w' request' p]\<rparr>)
              else (Inl Constraint_violation, db1))
         \<and> fst (refundPayment w' request' db1) \<noteq> Inl Can_only_refund_completed_payments"
      by blast
  qed
next
  show "fst (refundPayment w request db) = Inl Can_only_refund_completed_payments \<longleftrightarrow>
        (\<exists>p. getPaymentById (refund_payment_id request) db = Some p
             \<and> payment_status p \<noteq> COMPLETED)"
    by (auto simp: refundPayment_def insert_payment_def split: option.splits if_splits)
qed

theorem refundPayment_again_witness:
  "refundPayment (sample_payment_world 6 14 True) (sample_refund 11 None)
     (seed_db\<lparr>payments := seed_payments @ [sample_row 13 order1 (- 2500) REFUNDED 5]\<rparr>)
   = (Inr (sample_row 14 order1 (- 2500) REFUNDED 6),
      seed_db\<lparr>payments := seed_payments @ [sample_row 13 order1 (- 2500) REFUNDED 5,
                                          sample_row 14 order1 (- 2500) REFUNDED 6]\<rparr>)"
proof -
  let ?db1 = "seed_db\<lparr>payments := seed_payments @ [sample_row 13 order1 (- 2500) REFUNDED 5]\<rparr>"
  let ?p = "seed_payment 11 2500 ''credit_card'' ''txn_sample_001''"
  have g: "getPaymentById (refund_payment_id (sample_refund 11 None)) seed_db = Some ?p"
    by (simp add: sample_refund_def seed_get_11)
  have ok: "payment_insert_ok ?db1 (refund_row (sample_payment_world 6 14 True) (sample_refund 11 None) ?p)"
    by (simp add: payment_insert_ok_def int4_def refund_row_def refundAmount_def varchar_def seed_defs)
  have row: "refund_row (sample_payment_world 6 14 True) (sample_refund 11 None) ?p
      = sample_row 14 order1 (- 2500) REFUNDED 6"
    by (simp add: refund_row_def refundAmount_def varchar_def seed_defs)
  from refundPayment_again [where request = "sample_refund 11 None" and db = seed_db
      and w = "sample_payment_world 5 13 True" and request' = "sample_refund 11 None"
      and w' = "sample_payment_world 6 14 True"] g seed_refund_full
  have "refundPayment (sample_payment_world 6 14 True) (sample_refund 11 None) ?db1 =
           (if payment_insert_ok ?db1 (refund_row (sample_payment_world 6 14 True) (sample_refund 11 None) ?p)
            then (Inr (refund_row (sample_payment_world 6 14 True) (sample_refund 11 None) ?p),
                  ?db1\<lparr>payments := payments ?db1 @ [refund_row (sample_payment_world 6 14 True) (sample_refund 11 None) ?p]\<rparr>)
            else (Inl Constraint_violation, ?db1))"
    by blast
  with ok row show ?thesis by simp
qed

section \<open>getPaymentSummaryByOrderId\<close>

text \<open>
  C8, as the spec states it: rows that are PENDING or FAILED contribute to no field of the
  summary, latest_status included, and an order with no COMPLETED or REFUNDED row gets
  latest_status null. It does not: for order 2, whose only payment FAILED, the totals are
  zero and latest_status is FAILED.
\<close>

theorem latest_status_of_failed_payment:
  "summary_rows order2
     (snd (processPayment (sample_payment_world 1000 21 False) (sample_process 2500) seed_db)) = []
   \<and> getPaymentSummaryByOrderId order2
       (snd (processPayment (sample_payment_world 1000 21 False) (sample_process 2500) seed_db))
     = \<lparr>total_paid = 0, total_refunded = 0, net_amount = 0, payment_count = 0,
        latest_status = Some FAILED\<rparr>
   \<and> latest_status (getPaymentSummaryByOrderId order2
       (snd (processPayment (sample_payment_world 1000 21 False) (sample_process 2500) seed_db)))
     \<noteq> None"
  by (simp add: seed_process)
     (simp add: getPaymentSummaryByOrderId_def summary_rows_def sql_sum_def coalesce_def seed_defs)

text \<open>
  C8, amended. The three totals are computed only from the order's rows whose status is
  COMPLETED or REFUNDED: total_paid is the sum of their positive amounts, total_refunded
  the absolute value of the sum of their negative amounts, net_amount their signed sum,
  and removing every PENDING and FAILED row from the table changes none of the three; all
  three are zero when the order has no such row. latest_status is the status of a most
  recently created row of the order, whatever its status, and is null exactly when the
  order has no row at all. A COMPLETED payment of 2500 and a REFUNDED entry of -1000 give
  2500, 1000 and 1500.
\<close>

theorem getPaymentSummaryByOrderId_totals:
  "total_paid (getPaymentSummaryByOrderId orderId db)
     = sum_list (map amount_cents (filter (\<lambda>p. 0 < amount_cents p) (summary_rows orderId db)))
   \<and> total_refunded (getPaymentSummaryByOrderId orderId db)
     = \<bar>sum_list (map amount_cents (filter (\<lambda>p. amount_cents p < 0) (summary_rows orderId db)))\<bar>
   \<and> net_amount (getPaymentSummaryByOrderId orderId db)
     = sum_list (map amount_cents (summary_rows orderId db))
   \<and> set (summary_rows orderId db)
     = {p \<in> set (payments db). payment_order_id p = orderId
          \<and> (payment_status p = COMPLETED \<or> payment_status p = REFUNDED)}
   \<and> total_paid (getPaymentSummaryByOrderId orderId
         (db\<lparr>payments := filter (\<lambda>p. payment_status p = COMPLETED \<or> payment_status p = REFUNDED)
                             (payments db)\<rparr>))
     = total_paid (getPaymentSummaryByOrderId orderId db)
   \<and> total_refunded (getPaymentSummaryByOrderId orderId
         (db\<lparr>payments := filter (\<lambda>p. payment_status p = COMPLETED \<or> payment_status p = REFUNDED)
                             (payments db)\<rparr>))
     = total_refunded (getPaymentSummaryByOrderId orderId db)
   \<and> net_amount (getPaymentSummaryByOrderId orderId
         (db\<lparr>payments := filter (\<lambda>p. payment_status p = COMPLETED \<or> payment_status p = REFUNDED)
                             (payments db)\<rparr>))
     = net_amount (getPaymentSummaryByOrderId orderId db)
   \<and> (summary_rows orderId db = [] \<longrightarrow>
        total_paid (getPaymentSummaryByOrderId orderId db) = 0
        \<and> total_refunded (getPaymentSummaryByOrderId orderId db) = 0
        \<and> net_amount (getPaymentSummaryByOrderId orderId db) = 0)
   \<and> (latest_status (getPaymentSummaryByOrderId orderId db) = None \<longleftrightarrow>
        orderId \<notin> set (map payment_order_id (payments db)))
   \<and> (\<forall>st. latest_status (getPaymentSummaryByOrderId orderId db) = Some st \<longrightarrow>
        (\<exists>p\<in>set (payments db). payment_order_id p = orderId \<and> payment_status p = st
           \<and> (\<forall>q\<in>set (payments db). payment_order_id q = orderId \<longrightarrow>
                 payment_created_at q \<le> payment_created_at p)))"
proof -
  let ?S = "getPaymentSummaryByOrderId orderId db"
  let ?rows = "summary_rows orderId db"
  have paid: "total_paid ?S = sum_list (map amount_cents (filter (\<lambda>p. 0 < amount_cents p) ?rows))"
    by (simp add: getPaymentSummaryByOrderId_def coalesce_sql_sum sum_list_map_filter')
  have refunded: "total_refunded ?S
      = \<bar>sum_list (map amount_cents (filter (\<lambda>p. amount_cents p < 0) ?rows))\<bar>"
    by (simp add: getPaymentSummaryByOrderId_def coalesce_abs_sql_sum sum_list_map_filter')
  have net: "net_amount ?S = sum_list (map amount_cents ?rows)"
    by (simp add: getPaymentSummaryByOrderId_def coalesce_sql_sum)
  have rows: "set ?rows = {p \<in> set (payments db). payment_order_id p = orderId
          \<and> (payment_status p = COMPLETED \<or> payment_status p = REFUNDED)}"
    by (auto simp: summary_rows_def)
  have only: "total_paid (getPaymentSummaryByOrderId orderId
         (db\<lparr>payments := filter (\<lambda>p. payment_status p = COMPLETED \<or> payment_status p = REFUNDED)
                             (payments db)\<rparr>)) = total_paid ?S"
    "total_refunded (getPaymentSummaryByOrderId orderId
         (db\<lparr>payments := filter (\<lambda>p. payment_status p = COMPLETED \<or> payment_status p = REFUNDED)
                             (payments db)\<rparr>)) = total_refunded ?S"
    "net_amount (getPaymentSummaryByOrderId orderId
         (db\<lparr>payments := filter (\<lambda>p. payment_status p = COMPLETED \<or> payment_status p = REFUNDED)
                             (payments db)\<rparr>)) = net_amount ?S"
    by (simp_all add: getPaymentSummaryByOrderId_def summary_rows_filtered)
  have zeros: "?rows = [] \<longrightarrow> total_paid ?S = 0 \<and> total_refunded ?S = 0 \<and> net_amount ?S = 0"
    by (simp add: paid refunded net)
  have none: "latest_status ?S = None \<longleftrightarrow> orderId \<notin> set (map payment_order_id (payments db))"
    by (auto simp: getPaymentSummaryByOrderId_def latest_None filter_empty_conv)
  have some: "\<forall>st. latest_status ?S = Some st \<longrightarrow>
        (\<exists>p\<in>set (payments db). payment_order_id p = orderId \<and> payment_status p = st
           \<and> (\<forall>q\<in>set (payments db). payment_order_id q = orderId \<longrightarrow>
                 payment_created_at q \<le> payment_created_at p))"
  proof (intro allI impI)
    fix st
    assume "latest_status ?S = Some st"
    then obtain p where
      p: "order_by_created_at_desc_limit_1
            (filter (\<lambda>p. payment_order_id p = orderId) (payments db)) = Some p"
      and st: "payment_status p = st"
      by (auto simp: getPaymentSummaryByOrderId_def)
    from latest_Some [OF p] st
    show "\<exists>p\<in>set (payments db). payment_order_id p = orderId \<and> payment_status p = st
           \<and> (\<forall>q\<in>set (payments db). payment_order_id q = orderId \<longrightarrow>
                 payment_created_at q \<le> payment_created_at p)"
      by (intro bexI [of _ p]) auto
  qed
  from paid refunded net rows only zeros none some show ?thesis by blast
qed

theorem getPaymentSummaryByOrderId_totals_witness:
  "getPaymentSummaryByOrderId order2
     (snd (refundPayment (sample_payment_world 2000 22 True) (sample_refund 21 (Some 1000))
        (snd (processPayment (sample_payment_world 1000 21 True) (sample_process 2500) seed_db))))
     = \<lparr>total_paid = 2500, total_refunded = 1000, net_amount = 1500, payment_count = 2,
        latest_status = Some REFUNDED\<rparr>
   \<and> getPaymentSummaryByOrderId order2 seed_db
     = \<lparr>total_paid = 0, total_refunded = 0, net_amount = 0, payment_count = 0,
        latest_status = None\<rparr>"
proof -
  let ?db2 = "seed_db\<lparr>payments := seed_payments
           @ [sample_row 21 order2 2500 COMPLETED 1000,
              sample_row 22 order2 (- 1000) REFUNDED 2000]\<rparr>"
  have rows2: "summary_rows order2 ?db2
      = [sample_row 21 order2 2500 COMPLETED 1000, sample_row 22 order2 (- 1000) REFUNDED 2000]"
    by (simp add: summary_rows_def seed_defs)
  have rows0: "summary_rows order2 seed_db = []"
    by (simp add: summary_rows_def seed_defs)
  have none0: "order2 \<notin> set (map payment_order_id (payments seed_db))"
    by (simp add: seed_defs)
  have latest2: "latest_status (getPaymentSummaryByOrderId order2 ?db2) = Some REFUNDED"
    by (simp add: getPaymentSummaryByOrderId_def seed_defs)
  have count: "payment_count (getPaymentSummaryByOrderId order2 ?db2) = 2"
    "payment_count (getPaymentSummaryByOrderId order2 seed_db) = 0"
    by (simp_all add: getPaymentSummaryByOrderId_def rows2 rows0)
  from getPaymentSummaryByOrderId_totals [of order2 ?db2] rows2
  have t2: "total_paid (getPaymentSummaryByOrderId order2 ?db2) = 2500"
    "total_refunded (getPaymentSummaryByOrderId order2 ?db2) = 1000"
    "net_amount (getPaymentSummaryByOrderId order2 ?db2) = 1500"
    by (simp_all add: sample_row_def)
  from getPaymentSummaryByOrderId_totals [of order2 seed_db] rows0 none0
  have t0: "total_paid (getPaymentSummaryByOrderId order2 seed_db) = 0"
    "total_refunded (getPaymentSummaryByOrderId order2 seed_db) = 0"
    "net_amount (getPaymentSummaryByOrderId order2 seed_db) = 0"
    "latest_status (getPaymentSummaryByOrderId order2 seed_db) = None"
    by simp_all
  have "getPaymentSummaryByOrderId order2 ?db2
     = \<lparr>total_paid = 2500, total_refunded = 1000, net_amount = 1500, payment_count = 2,
        latest_status = Some REFUNDED\<rparr>"
    using t2 latest2 count by (cases "getPaymentSummaryByOrderId order2 ?db2") simp
  moreover have "getPaymentSummaryByOrderId order2 seed_db
     = \<lparr>total_paid = 0, total_refunded = 0, net_amount = 0, payment_count = 0,
        latest_status = None\<rparr>"
    using t0 count by (cases "getPaymentSummaryByOrderId order2 seed_db") simp
  ultimately show ?thesis by (simp add: seed_process seed_process_refund)
qed

section \<open>reserveInventory is all or nothing\<close>



section \<open>releaseReservation credits once\<close>

text \<open>
  C4. release(order_id) credits the order's reservations whose status is RESERVED or
  CONFIRMED back to stock: every inventory row gains in available_quantity, and loses from
  reserved_quantity, the quantity these reservations hold of its SKU, and each of them
  becomes RELEASED; no other reservation changes. The call does this whenever the stock
  ledger covers the reservations (the reserved_quantity of each SKU is at least what the
  order holds of it, and the credited available_quantity stays in the range of INTEGER).
  A ledger that covers its reservations, as the seeded one does, still covers them after
  any sequence of reserve, confirm and release calls, so there every release succeeds. A
  call that fails leaves the database as it was. It is idempotent: a second release of the same
  order, at any later time, leaves the database as the first one left it, so each quantity
  is credited once. For an order with no RESERVED or CONFIRMED reservation the call returns
  normally and changes nothing.
\<close>

theorem releaseReservation_credits_once:
  "(\<forall>db'. releaseReservation w orderId db = (Inr (), db') \<longrightarrow>
        inventory db' =
          map (\<lambda>r. if sku r \<in> set (map reservation_sku
                                    (filter (releasable orderId) (inventory_reservations db)))
                    then r\<lparr>available_quantity :=
                             available_quantity r
                               + held (filter (releasable orderId) (inventory_reservations db))
                                   (sku r),
                           reserved_quantity :=
                             reserved_quantity r
                               - held (filter (releasable orderId) (inventory_reservations db))
                                   (sku r),
                           item_updated_at := current_timestamp w\<rparr>
                    else r)
              (inventory db)
        \<and> inventory_reservations db' =
            map (\<lambda>r. if order_id r = orderId \<and> (status r = RESERVED \<or> status r = CONFIRMED)
                      then r\<lparr>status := RELEASED, updated_at := current_timestamp w\<rparr>
                      else r)
                (inventory_reservations db)
        \<and> orders db' = orders db \<and> payments db' = payments db)
   \<and> (\<forall>e db'. releaseReservation w orderId db = (Inl e, db') \<longrightarrow> db' = db)
   \<and> ((\<forall>x\<in>set (inventory_reservations db). releasable orderId x \<longrightarrow> 0 < quantity x)
       \<and> (\<forall>r\<in>set (inventory db).
             held (filter (releasable orderId) (inventory_reservations db)) (sku r)
               \<le> reserved_quantity r
             \<and> available_quantity r
                 + held (filter (releasable orderId) (inventory_reservations db)) (sku r)
               \<le> 2147483647
             \<and> inventory_check r) \<longrightarrow>
       fst (releaseReservation w orderId db) = Inr ())
   \<and> (ledger_covers db \<longrightarrow>
       ledger_covers (run_calls cs db)
       \<and> fst (releaseReservation w orderId (run_calls cs db)) = Inr ())
   \<and> snd (releaseReservation w' orderId (snd (releaseReservation w orderId db)))
       = snd (releaseReservation w orderId db)
   \<and> (fst (releaseReservation w orderId db) = Inr () \<longrightarrow>
       releaseReservation w' orderId (snd (releaseReservation w orderId db))
         = (Inr (), snd (releaseReservation w orderId db)))
   \<and> (filter (releasable orderId) (inventory_reservations db) = [] \<longrightarrow>
       releaseReservation w orderId db = (Inr (), db))"
proof -
  let ?live = "filter (releasable orderId) (inventory_reservations db)"
  have commit: "inventory db' =
          map (\<lambda>r. if sku r \<in> set (map reservation_sku ?live)
                    then r\<lparr>available_quantity := available_quantity r + held ?live (sku r),
                           reserved_quantity := reserved_quantity r - held ?live (sku r),
                           item_updated_at := current_timestamp w\<rparr>
                    else r)
              (inventory db)
        \<and> inventory_reservations db' =
            map (\<lambda>r. if order_id r = orderId \<and> (status r = RESERVED \<or> status r = CONFIRMED)
                      then r\<lparr>status := RELEASED, updated_at := current_timestamp w\<rparr>
                      else r)
                (inventory_reservations db)
        \<and> orders db' = orders db \<and> payments db' = payments db"
    if "releaseReservation w orderId db = (Inr (), db')" for db'
  proof -
    from that obtain rows where loop: "release_loop w ?live (inventory db) = Inr rows"
      and db': "db' = db\<lparr>inventory := rows,
              inventory_reservations :=
                map (\<lambda>r. if releasable orderId r
                          then r\<lparr>status := RELEASED, updated_at := current_timestamp w\<rparr>
                          else r)
                    (inventory_reservations db)\<rparr>"
      by (auto simp: releaseReservation_def split: sum.splits)
    from release_loop_Inr [OF loop] db' show ?thesis
      by (simp add: credit_columns releasable_def del: map_map)
  qed
  have rollback: "db' = db" if "releaseReservation w orderId db = (Inl e, db')" for e db'
    using that by (auto simp: releaseReservation_def split: sum.splits)
  have succeeds: "fst (releaseReservation w orderId db) = Inr ()"
    if "(\<forall>x\<in>set (inventory_reservations db). releasable orderId x \<longrightarrow> 0 < quantity x)
       \<and> (\<forall>r\<in>set (inventory db).
             held ?live (sku r) \<le> reserved_quantity r
             \<and> available_quantity r + held ?live (sku r) \<le> 2147483647
             \<and> inventory_check r)"
  proof -
    from that have "\<exists>rows'. release_loop w ?live (inventory db) = Inr rows'"
      by (intro release_loop_succeeds) simp_all
    then show ?thesis by (auto simp: releaseReservation_def)
  qed
  have again: "releaseReservation w' orderId (snd (releaseReservation w orderId db))
         = (Inr (), snd (releaseReservation w orderId db))"
    if "fst (releaseReservation w orderId db) = Inr ()"
  proof -
    from that have "filter (releasable orderId)
        (inventory_reservations (snd (releaseReservation w orderId db))) = []"
      by (auto simp: releaseReservation_def released_not_releasable split: sum.splits)
    then show ?thesis by (rule releaseReservation_nothing)
  qed
  have reachable: "ledger_covers (run_calls cs db)
       \<and> fst (releaseReservation w orderId (run_calls cs db)) = Inr ()"
    if "ledger_covers db"
  proof -
    from that have "ledger_covers (run_calls cs db)" by (rule ledger_covers_run_calls)
    then show ?thesis by (simp add: ledger_covers_released)
  qed
  from commit rollback succeeds reachable again releaseReservation_again [of w' orderId w db]
    releaseReservation_nothing [of orderId db w]
  show ?thesis by blast
qed

theorem releaseReservation_credits_once_witness:
  "releaseReservation (sample_world 3000 0) order1 held_db = (Inr (), released_db)
   \<and> map (\<lambda>r. (sku r, available_quantity r, reserved_quantity r)) (inventory released_db)
     = map (\<lambda>r. (sku r, available_quantity r, reserved_quantity r)) (inventory seed_db)
   \<and> map status (inventory_reservations released_db) = [RELEASED, RELEASED]
   \<and> releaseReservation (sample_world 4000 0) order1 released_db = (Inr (), released_db)
   \<and> releaseReservation (sample_world 3000 0) order2 held_db = (Inr (), held_db)
   \<and> fst (releaseReservation (sample_world 3000 0) order1
            (run_calls [Reserve (sample_world 1000 100) sample_request] seed_db)) = Inr ()"
proof -
  have covered: "(\<forall>x\<in>set (inventory_reservations held_db). releasable order1 x \<longrightarrow> 0 < quantity x)
       \<and> (\<forall>r\<in>set (inventory held_db).
             held (filter (releasable order1) (inventory_reservations held_db)) (sku r)
               \<le> reserved_quantity r
             \<and> available_quantity r
                 + held (filter (releasable order1) (inventory_reservations held_db)) (sku r)
               \<le> 2147483647
             \<and> inventory_check r)"
    by (simp add: inventory_defs releasable_def held_def inventory_check_def int4_def)
  have none: "filter (releasable order2) (inventory_reservations held_db) = []"
    by (simp add: inventory_defs releasable_def)
  have stock: "map (\<lambda>r. (sku r, available_quantity r, reserved_quantity r)) (inventory released_db)
     = map (\<lambda>r. (sku r, available_quantity r, reserved_quantity r)) (inventory seed_db)"
    "map status (inventory_reservations released_db) = [RELEASED, RELEASED]"
    by (simp_all add: released_db_def inventory_defs)
  note thm1 = releaseReservation_credits_once
      [where w = "sample_world 3000 0" and orderId = order1 and db = held_db
         and w' = "sample_world 4000 0"]
  from thm1 covered have ok: "fst (releaseReservation (sample_world 3000 0) order1 held_db) = Inr ()"
    by blast
  with thm1 have "releaseReservation (sample_world 4000 0) order1
        (snd (releaseReservation (sample_world 3000 0) order1 held_db))
      = (Inr (), snd (releaseReservation (sample_world 3000 0) order1 held_db))"
    by blast
  then have twice: "releaseReservation (sample_world 4000 0) order1 released_db
      = (Inr (), released_db)"
    by (simp add: held_release)
  from releaseReservation_credits_once
      [where w = "sample_world 3000 0" and orderId = order2 and db = held_db] none
  have noop: "releaseReservation (sample_world 3000 0) order2 held_db = (Inr (), held_db)"
    by blast
  from releaseReservation_credits_once
      [where w = "sample_world 3000 0" and orderId = order1 and db = seed_db
         and cs = "[Reserve (sample_world 1000 100) sample_request]"] ledger_covers_seed
  have after: "fst (releaseReservation (sample_world 3000 0) order1
            (run_calls [Reserve (sample_world 1000 100) sample_request] seed_db)) = Inr ()"
    by blast
  from held_release stock twice noop after show ?thesis by blast
qed

end
